theory Spec2Isabelle
  imports Complex_Main
begin

section \<open>Strings\<close>

text \<open>
  Identifiers are strings of ASCII characters (ICAO24 addresses are six hex digits).
  A JavaScript string is modelled as a \<open>string\<close>; \<open>toLowerCase\<close> and
  \<open>toUpperCase\<close> act on the ASCII letters and leave every other character alone.
  A value that may be \<open>null\<close> or \<open>undefined\<close> is an \<open>option\<close>.
\<close>

definition upper_letters :: string where
  "upper_letters = ''ABCDEFGHIJKLMNOPQRSTUVWXYZ''"

definition lower_letters :: string where
  "lower_letters = ''abcdefghijklmnopqrstuvwxyz''"

definition toLowerCase_char :: "char \<Rightarrow> char" where
  "toLowerCase_char c =
     (case map_of (zip upper_letters lower_letters) c of Some d \<Rightarrow> d | None \<Rightarrow> c)"

definition toUpperCase_char :: "char \<Rightarrow> char" where
  "toUpperCase_char c =
     (case map_of (zip lower_letters upper_letters) c of Some d \<Rightarrow> d | None \<Rightarrow> c)"

definition toLowerCase :: "string \<Rightarrow> string" where
  "toLowerCase s = map toLowerCase_char s"

definition toUpperCase :: "string \<Rightarrow> string" where
  "toUpperCase s = map toUpperCase_char s"

text \<open>\<open>s.substring(a, b)\<close>: the indices are clamped to the length and swapped when
  \<open>a > b\<close>.\<close>

definition substring :: "string \<Rightarrow> nat \<Rightarrow> nat \<Rightarrow> string" where
  "substring s a b = (let lo = min a b; hi = max a b in take (hi - lo) (drop lo s))"

section \<open>Classifier\<close>

definition RUSSIAN_ICAO_PREFIXES :: "string list" where
  "RUSSIAN_ICAO_PREFIXES =
     [''140'', ''141'', ''142'', ''143'', ''144'', ''145'', ''146'', ''147'',
      ''148'', ''149'', ''14a'', ''14b'', ''14c'', ''14d'', ''14e'', ''14f'',
      ''150'', ''151'', ''152'', ''153'', ''154'', ''155'', ''156'', ''157'']"

text \<open>\<open>isRussianAircraft(icao24)\<close>: \<open>!icao24\<close> holds for \<open>null\<close>, \<open>undefined\<close> and
  the empty string.\<close>

definition isRussianAircraft :: "string option \<Rightarrow> bool" where
  "isRussianAircraft ident =
     (case ident of
        None \<Rightarrow> False
      | Some s \<Rightarrow>
          if s = [] then False
          else (let prefix = substring (toLowerCase s) 0 3
                in prefix \<in> set RUSSIAN_ICAO_PREFIXES))"

text \<open>The three-digit lower-case hexadecimal numeral of a number below \<open>0x1000\<close>, to state
  the range \<open>140 .. 157\<close> (hex) of the prefix table.\<close>

definition hexdigit :: "nat \<Rightarrow> char" where
  "hexdigit d = ''0123456789abcdef'' ! (d mod 16)"

definition hex3 :: "nat \<Rightarrow> string" where
  "hex3 n = [hexdigit (n div 256), hexdigit (n div 16), hexdigit n]"

subsection \<open>The military dataset\<close>

text \<open>
  The module loads \<open>assets/military_hex.json\<close> once, inside \<open>try { ... } catch { }\<close>.
  \<open>require\<close> throws when the file is missing or is not valid JSON; otherwise it yields
  the parsed value. An object is the list of its members in file order (a later member
  with the same key overrides an earlier one).
\<close>

datatype json =
    JNull
  | JBool bool
  | JNum real
  | JStr string
  | JArr "json list"
  | JObj "(string \<times> json) list"

datatype dataset = Missing | Unparseable | Parsed json

datatype js_error = ModuleNotFound | SyntaxError | TypeError

text \<open>\<open>item.hex\<close>: reading a property of \<open>null\<close> throws; a primitive or an array has no
  property \<open>hex\<close> (\<open>undefined\<close>, here \<open>None\<close>).\<close>

fun get_hex :: "json \<Rightarrow> js_error + json option" where
  "get_hex JNull = Inl TypeError"
| "get_hex (JObj kvs) = Inr (map_of (rev kvs) ''hex'')"
| "get_hex _ = Inr None"

text \<open>Truthiness of a JSON value, as \<open>if (item.hex)\<close> tests it.\<close>

fun truthy :: "json \<Rightarrow> bool" where
  "truthy JNull = False"
| "truthy (JBool b) = b"
| "truthy (JNum n) = (n \<noteq> 0)"
| "truthy (JStr s) = (s \<noteq> [])"
| "truthy (JArr _) = True"
| "truthy (JObj _) = True"

text \<open>\<open>item.hex.toLowerCase()\<close>: only a string has the method; calling it on any other
  truthy value throws.\<close>

fun hex_toLowerCase :: "json \<Rightarrow> js_error + string" where
  "hex_toLowerCase (JStr s) = Inr (toLowerCase s)"
| "hex_toLowerCase _ = Inl TypeError"

text \<open>
  \<open>militaryData.forEach(item => { if (item.hex) militaryHexCodes.add(...) })\<close>. The set is
  mutated in place, so the loop returns the set as it stands together with the exception
  that stopped it, if any.
\<close>

fun forEach_item :: "json list \<Rightarrow> string set \<Rightarrow> string set \<times> js_error option" where
  "forEach_item [] codes = (codes, None)"
| "forEach_item (item # items) codes =
     (case get_hex item of
        Inl e \<Rightarrow> (codes, Some e)
      | Inr None \<Rightarrow> forEach_item items codes
      | Inr (Some h) \<Rightarrow>
          if truthy h then
            (case hex_toLowerCase h of
               Inl e \<Rightarrow> (codes, Some e)
             | Inr s \<Rightarrow> forEach_item items (insert s codes))
          else forEach_item items codes)"

text \<open>The body of the \<open>try\<close> block, started on the empty set.\<close>

definition load_try :: "dataset \<Rightarrow> string set \<times> js_error option" where
  "load_try d =
     (case d of
        Missing \<Rightarrow> ({}, Some ModuleNotFound)
      | Unparseable \<Rightarrow> ({}, Some SyntaxError)
      | Parsed militaryData \<Rightarrow>
          (case militaryData of
             JArr items \<Rightarrow> forEach_item items {}
           | _ \<Rightarrow> ({}, None)))"

text \<open>The whole statement: the \<open>catch\<close> block swallows the exception, so the module
  initialisation ends with the set as it stands and no exception.\<close>

definition load_military :: "dataset \<Rightarrow> string set \<times> js_error option" where
  "load_military d = (let (codes, thrown) = load_try d in (codes, None))"

definition militaryHexCodes :: "dataset \<Rightarrow> string set" where
  "militaryHexCodes d = fst (load_military d)"

text \<open>\<open>isMilitary(icao24)\<close> is \<open>militaryHexCodes.has(icao24?.toLowerCase() ?? '')\<close>; the
  set is a parameter.\<close>

definition isMilitary :: "string set \<Rightarrow> string option \<Rightarrow> bool" where
  "isMilitary codes ident =
     ((case ident of None \<Rightarrow> [] | Some s \<Rightarrow> toLowerCase s) \<in> codes)"

section \<open>Feed adapters and fusion\<close>

text \<open>
  The common aircraft-state record (\<open>ADSBoneAircraft\<close>). A field that may be missing is
  an \<open>option\<close>. \<open>alt_baro\<close> is a number or the string \<open>'ground'\<close>. The fields \<open>t\<close> and
  \<open>desc\<close> are \<open>ac_t\<close> and \<open>ac_desc\<close> here; the fields the tracker never reads (\<open>squawk\<close>,
  \<open>category\<close>, ...) are left out.
\<close>

datatype alt_value = Num real | Ground

record ac_state =
  hex :: "string option"
  flight :: "string option"
  lat :: "real option"
  lon :: "real option"
  alt_baro :: "alt_value option"
  alt_geom :: "real option"
  gs :: "real option"
  track :: "real option"
  baro_rate :: "real option"
  geom_rate :: "real option"
  ac_t :: "string option"
  ac_desc :: "string option"

text \<open>Truthiness of an optional string: present and not empty.\<close>

definition truthy_str :: "string option \<Rightarrow> bool" where
  "truthy_str so = (case so of None \<Rightarrow> False | Some s \<Rightarrow> s \<noteq> [])"

text \<open>\<open>s.trim()\<close> on ASCII white space.\<close>

definition is_space :: "char \<Rightarrow> bool" where
  "is_space c = (c \<in> set [CHR '' '', CHR 0x09, CHR 0x0A, CHR 0x0B, CHR 0x0C, CHR 0x0D])"

definition trim :: "string \<Rightarrow> string" where
  "trim s = rev (dropWhile is_space (rev (dropWhile is_space s)))"

text \<open>\<open>x?.trim() || null\<close> (and \<open>|| undefined\<close>): the trimmed string when it is present
  and not empty.\<close>

definition trim_or_null :: "string option \<Rightarrow> string option" where
  "trim_or_null so =
     (case so of
        None \<Rightarrow> None
      | Some s \<Rightarrow> if trim s = [] then None else Some (trim s))"

text \<open>
  \<open>fetchFromADSBone\<close>. The network is an argument: one entry per coverage point, \<open>None\<close>
  when the request threw, the response was not \<open>ok\<close> or it had no \<open>ac\<close> list (the point is
  skipped), otherwise the \<open>ac\<close> list. The state of the loops is \<open>allAircraft\<close> and
  \<open>seenHex\<close>; \<open>seenHex\<close> holds the identifiers as received.
\<close>

fun adsb_point :: "ac_state list \<Rightarrow> ac_state list \<times> string set \<Rightarrow> ac_state list \<times> string set"
where
  "adsb_point [] st = st"
| "adsb_point (ac # acs) (allAircraft, seenHex) =
     (if truthy_str (hex ac) \<and> the (hex ac) \<notin> seenHex
      then adsb_point acs (allAircraft @ [ac], insert (the (hex ac)) seenHex)
      else adsb_point acs (allAircraft, seenHex))"

fun adsb_points ::
  "ac_state list option list \<Rightarrow> ac_state list \<times> string set \<Rightarrow> ac_state list \<times> string set"
where
  "adsb_points [] st = st"
| "adsb_points (None # rs) st = adsb_points rs st"
| "adsb_points (Some acs # rs) st = adsb_points rs (adsb_point acs st)"

definition fetchFromADSBone :: "ac_state list option list \<Rightarrow> ac_state list" where
  "fetchFromADSBone responses = fst (adsb_points responses ([], {}))"

text \<open>
  \<open>fetchFromOpenSky\<close>. A state vector is an array; the record has the entries the
  adapter reads: index 0, 1, 5, 6, 7, 9, 10, 11 and 13.
\<close>

record opensky_state =
  os_icao24 :: "string option"
  os_callsign :: "string option"
  os_longitude :: "real option"
  os_latitude :: "real option"
  os_baro_altitude :: "real option"
  os_velocity :: "real option"
  os_true_track :: "real option"
  os_vertical_rate :: "real option"
  os_geo_altitude :: "real option"

definition of_opensky :: "opensky_state \<Rightarrow> ac_state" where
  "of_opensky state =
     \<lparr>hex = os_icao24 state,
      flight = trim_or_null (os_callsign state),
      lat = os_latitude state,
      lon = os_longitude state,
      alt_baro = map_option Num (os_baro_altitude state),
      alt_geom = os_geo_altitude state,
      gs = os_velocity state,
      track = os_true_track state,
      baro_rate = os_vertical_rate state,
      geom_rate = None,
      ac_t = None,
      ac_desc = None\<rparr>"

fun opensky_box ::
  "opensky_state list \<Rightarrow> ac_state list \<times> string set \<Rightarrow> ac_state list \<times> string set"
where
  "opensky_box [] st = st"
| "opensky_box (state # states) (allAircraft, seenHex) =
     (if truthy_str (os_icao24 state) \<and> the (os_icao24 state) \<notin> seenHex
      then opensky_box states
             (allAircraft @ [of_opensky state], insert (the (os_icao24 state)) seenHex)
      else opensky_box states (allAircraft, seenHex))"

fun opensky_boxes ::
  "opensky_state list option list \<Rightarrow> ac_state list \<times> string set \<Rightarrow> ac_state list \<times> string set"
where
  "opensky_boxes [] st = st"
| "opensky_boxes (None # rs) st = opensky_boxes rs st"
| "opensky_boxes (Some states # rs) st = opensky_boxes rs (opensky_box states st)"

definition fetchFromOpenSky :: "opensky_state list option list \<Rightarrow> ac_state list" where
  "fetchFromOpenSky responses = fst (opensky_boxes responses ([], {}))"

text \<open>
  The merge of \<open>fetchAndStoreRussianAircraft\<close>: first every ADSB.one aircraft with an
  identifier, then the OpenSky aircraft whose lower-cased identifier has not been seen.
  The state is \<open>mergedAircraft\<close> and \<open>seenHex\<close>, which holds lower-cased identifiers here.
\<close>

fun merge_adsb :: "ac_state list \<Rightarrow> ac_state list \<times> string set \<Rightarrow> ac_state list \<times> string set"
where
  "merge_adsb [] st = st"
| "merge_adsb (ac # acs) (mergedAircraft, seenHex) =
     (if truthy_str (hex ac)
      then merge_adsb acs (mergedAircraft @ [ac], insert (toLowerCase (the (hex ac))) seenHex)
      else merge_adsb acs (mergedAircraft, seenHex))"

fun merge_opensky ::
  "ac_state list \<Rightarrow> ac_state list \<times> string set \<Rightarrow> ac_state list \<times> string set"
where
  "merge_opensky [] st = st"
| "merge_opensky (ac # acs) (mergedAircraft, seenHex) =
     (if truthy_str (hex ac) \<and> toLowerCase (the (hex ac)) \<notin> seenHex
      then merge_opensky acs
             (mergedAircraft @ [ac], insert (toLowerCase (the (hex ac))) seenHex)
      else merge_opensky acs (mergedAircraft, seenHex))"

definition mergeAircraft :: "ac_state list \<Rightarrow> ac_state list \<Rightarrow> ac_state list" where
  "mergeAircraft adsbData openSkyAircraft =
     fst (merge_opensky openSkyAircraft (merge_adsb adsbData ([], {})))"

text \<open>An aircraft state with an identifier and a call sign only, for examples.\<close>

definition state_of :: "string \<Rightarrow> string \<Rightarrow> ac_state" where
  "state_of h f =
     \<lparr>hex = Some h, flight = Some f, lat = None, lon = None, alt_baro = None,
      alt_geom = None, gs = None, track = None, baro_rate = None, geom_rate = None,
      ac_t = None, ac_desc = None\<rparr>"

text \<open>The lower-cased identifiers of the states that have one.\<close>

definition lower_ids :: "ac_state list \<Rightarrow> string list" where
  "lower_ids acs = map (\<lambda>ac. toLowerCase (the (hex ac))) (filter (\<lambda>ac. truthy_str (hex ac)) acs)"

section \<open>Track reconstruction\<close>

text \<open>
  A row of the position query of \<open>getAllTracksLast24h\<close> has the selected columns. The
  decimal columns hold real numbers; \<open>timestamp\<close> is what
  \<open>new Date(p.timestamp).getTime()\<close> reads, the milliseconds since the epoch. The gap
  between two time stamps is the exact quotient by 1000; the code has the nearest double,
  which compares with 300 in the same way, since the difference is a whole number of
  milliseconds.
\<close>

record position =
  latitude :: "real option"
  longitude :: "real option"
  altitude :: "real option"
  velocity :: "real option"
  heading :: "real option"
  timestamp :: int

text \<open>A \<open>TrackSegment\<close>; \<open>gapDurationSeconds\<close> is \<open>None\<close> where the code leaves it
  \<open>undefined\<close>.\<close>

record segment =
  positions :: "position list"
  hasGapBefore :: bool
  gapDurationSeconds :: "real option"

definition MAX_POSITION_GAP_SECONDS :: real where
  "MAX_POSITION_GAP_SECONDS = 300"

text \<open>
  The \<open>for\<close> loop of \<open>splitIntoSegments\<close>, from index \<open>i\<close> on, with the two mutable
  variables \<open>segments\<close> and \<open>currentSegment\<close> as arguments and as result.
\<close>

function split_loop ::
  "position list \<Rightarrow> nat \<Rightarrow> segment list \<Rightarrow> position list \<Rightarrow> segment list \<times> position list"
where
  "split_loop ps i segments currentSegment =
     (if i < length ps then
        (let prevTime = timestamp (ps ! (i - 1));
             currTime = timestamp (ps ! i);
             gapSeconds = real_of_int (currTime - prevTime) / 1000
         in if gapSeconds > MAX_POSITION_GAP_SECONDS then
              split_loop ps (i + 1)
                ((if length currentSegment \<ge> 1
                  then segments @
                    [\<lparr>positions = currentSegment,
                      hasGapBefore = (if length segments > 0 then False else False),
                      gapDurationSeconds = None\<rparr>]
                  else segments) @
                 [\<lparr>positions = [], hasGapBefore = True, gapDurationSeconds = Some gapSeconds\<rparr>])
                [ps ! i]
            else split_loop ps (i + 1) segments (currentSegment @ [ps ! i]))
      else (segments, currentSegment))"
  by pat_completeness auto
termination
  by (relation "measure (\<lambda>(ps, i, segments, currentSegment). length ps - i)") auto

text \<open>The code after the loop: the final segment takes over the gap of a trailing
  marker; then the empty segments are filtered out.\<close>

definition add_final :: "segment list \<Rightarrow> position list \<Rightarrow> segment list" where
  "add_final segments currentSegment =
     (if length currentSegment \<ge> 1 then
        (if length segments > 0 \<and> length (positions (last segments)) = 0 then
           (let gapMarker = last segments
            in butlast segments @
               [\<lparr>positions = currentSegment, hasGapBefore = True,
                 gapDurationSeconds = gapDurationSeconds gapMarker\<rparr>])
         else segments @
               [\<lparr>positions = currentSegment, hasGapBefore = False,
                 gapDurationSeconds = None\<rparr>])
      else segments)"

definition splitIntoSegments :: "position list \<Rightarrow> segment list" where
  "splitIntoSegments ps =
     (if length ps = 0 then []
      else (let (segments, currentSegment) = split_loop ps 1 [] [ps ! 0]
            in filter (\<lambda>s. length (positions s) \<ge> 1) (add_final segments currentSegment)))"

text \<open>
  The runs of the specification, for comparison with the segments of the code: the
  sequence is cut between two consecutive samples exactly when the gap between their
  time stamps exceeds the threshold.
\<close>

definition gap_seconds :: "position \<Rightarrow> position \<Rightarrow> real" where
  "gap_seconds p q = real_of_int (timestamp q - timestamp p) / 1000"

fun runs :: "position list \<Rightarrow> position list list" where
  "runs [] = []"
| "runs [p] = [[p]]"
| "runs (p # q # ps) =
     (if gap_seconds p q > MAX_POSITION_GAP_SECONDS then [p] # runs (q # ps)
      else (case runs (q # ps) of [] \<Rightarrow> [[p]] | r # rs \<Rightarrow> (p # r) # rs))"

text \<open>A position with nothing but a time stamp, given in seconds, for examples.\<close>

definition at_seconds :: "int \<Rightarrow> position" where
  "at_seconds t =
     \<lparr>latitude = None, longitude = None, altitude = None, velocity = None, heading = None,
      timestamp = 1000 * t\<rparr>"

subsection \<open>Great-circle distance\<close>

text \<open>
  The numbers of the distance computation are IEEE doubles: \<open>NaN\<close>, the two infinities,
  the negative zero, and the finite values, which are real numbers. \<open>a <= b\<close> and \<open>a > b\<close>
  are false when an operand is \<open>NaN\<close>, and they take the negative zero for zero.
\<close>

datatype number = NaN | NegInfinity | NegZero | Finite real | Infinity

fun is_NaN :: "number \<Rightarrow> bool" where
  "is_NaN NaN = True"
| "is_NaN _ = False"

text \<open>The place of a number that is not \<open>NaN\<close> in the order: the infinities below and
  above the finite values.\<close>

fun rank :: "number \<Rightarrow> int \<times> real" where
  "rank NegInfinity = (- 1, 0)"
| "rank NegZero = (0, 0)"
| "rank (Finite x) = (0, x)"
| "rank Infinity = (1, 0)"
| "rank NaN = (0, 0)"

definition js_le :: "number \<Rightarrow> number \<Rightarrow> bool" where
  "js_le x y =
     (\<not> is_NaN x \<and> \<not> is_NaN y
      \<and> (fst (rank x) < fst (rank y)
          \<or> fst (rank x) = fst (rank y) \<and> snd (rank x) \<le> snd (rank y)))"

definition js_gt :: "number \<Rightarrow> number \<Rightarrow> bool" where
  "js_gt x y =
     (\<not> is_NaN x \<and> \<not> is_NaN y
      \<and> (fst (rank y) < fst (rank x)
          \<or> fst (rank y) = fst (rank x) \<and> snd (rank y) < snd (rank x)))"

text \<open>
  The arithmetic of the doubles is a parameter: the four operations with their rounding,
  the functions \<open>Math.sin\<close>, \<open>Math.cos\<close>, \<open>Math.sqrt\<close> and \<open>Math.atan2\<close> of the engine,
  and the constant \<open>Math.PI\<close>. Nothing is assumed of it, so what is proved of
  \<open>haversineDistance\<close> holds for the arithmetic of the engine.
\<close>

record arith =
  js_add :: "number \<Rightarrow> number \<Rightarrow> number"
  js_sub :: "number \<Rightarrow> number \<Rightarrow> number"
  js_mul :: "number \<Rightarrow> number \<Rightarrow> number"
  js_div :: "number \<Rightarrow> number \<Rightarrow> number"
  Math_sin :: "number \<Rightarrow> number"
  Math_cos :: "number \<Rightarrow> number"
  Math_sqrt :: "number \<Rightarrow> number"
  Math_atan2 :: "number \<Rightarrow> number \<Rightarrow> number"
  Math_PI :: number

definition haversineDistance :: "arith \<Rightarrow> number \<Rightarrow> number \<Rightarrow> number \<Rightarrow> number \<Rightarrow> number" where
  "haversineDistance fp lat1 lon1 lat2 lon2 =
     (let R = Finite 6371;
          dLat = js_div fp (js_mul fp (js_sub fp lat2 lat1) (Math_PI fp)) (Finite 180);
          dLon = js_div fp (js_mul fp (js_sub fp lon2 lon1) (Math_PI fp)) (Finite 180);
          a = js_add fp
                (js_mul fp (Math_sin fp (js_div fp dLat (Finite 2)))
                           (Math_sin fp (js_div fp dLat (Finite 2))))
                (js_mul fp
                   (js_mul fp
                      (js_mul fp
                         (Math_cos fp (js_div fp (js_mul fp lat1 (Math_PI fp)) (Finite 180)))
                         (Math_cos fp (js_div fp (js_mul fp lat2 (Math_PI fp)) (Finite 180))))
                      (Math_sin fp (js_div fp dLon (Finite 2))))
                   (Math_sin fp (js_div fp dLon (Finite 2))));
          c = js_mul fp (Finite 2)
                (Math_atan2 fp (Math_sqrt fp a) (Math_sqrt fp (js_sub fp (Finite 1) a)))
      in js_mul fp R c)"

text \<open>The value of the constant \<open>a\<close> of \<open>haversineDistance\<close>, named so that the lemmas
  can speak of it.\<close>

definition haversine_a :: "arith \<Rightarrow> number \<Rightarrow> number \<Rightarrow> number \<Rightarrow> number \<Rightarrow> number" where
  "haversine_a fp lat1 lon1 lat2 lon2 =
     (let dLat = js_div fp (js_mul fp (js_sub fp lat2 lat1) (Math_PI fp)) (Finite 180);
          dLon = js_div fp (js_mul fp (js_sub fp lon2 lon1) (Math_PI fp)) (Finite 180)
      in js_add fp
           (js_mul fp (Math_sin fp (js_div fp dLat (Finite 2)))
                      (Math_sin fp (js_div fp dLat (Finite 2))))
           (js_mul fp
              (js_mul fp
                 (js_mul fp
                    (Math_cos fp (js_div fp (js_mul fp lat1 (Math_PI fp)) (Finite 180)))
                    (Math_cos fp (js_div fp (js_mul fp lat2 (Math_PI fp)) (Finite 180))))
                 (Math_sin fp (js_div fp dLon (Finite 2))))
              (Math_sin fp (js_div fp dLon (Finite 2)))))"

subsection \<open>The track query\<close>

text \<open>
  A row of the first query of \<open>getAllTracksLast24h\<close> (one per identifier), and the
  \<open>AircraftTrack\<close> built from it. The field \<open>positions\<close> of a track is \<open>track_positions\<close>
  here, since \<open>positions\<close> names the field of a segment.
\<close>

record aircraft_row =
  icao24 :: string
  callsign :: "string option"
  aircraft_type :: "string option"

record aircraft_track = aircraft_row +
  track_positions :: "position list"
  segments :: "segment list"
  is_military :: bool

text \<open>The callback of \<open>positions.filter\<close>.\<close>

definition inRadius :: "arith \<Rightarrow> number \<Rightarrow> number \<Rightarrow> number \<Rightarrow> position \<Rightarrow> bool" where
  "inRadius fp centerLat centerLon radiusKm pos =
     (case (latitude pos, longitude pos) of
        (Some la, Some lo) \<Rightarrow>
          (let distance = haversineDistance fp centerLat centerLon (Finite la) (Finite lo)
           in js_le distance radiusKm)
      | _ \<Rightarrow> False)"

text \<open>\<open>shouldFilter\<close> holds when none of the three arguments is \<open>undefined\<close>; an argument
  that is supplied may be any number, \<open>NaN\<close> included (the route passes the result of
  \<open>parseFloat\<close> on).\<close>

definition filterByRadius ::
  "arith \<Rightarrow> number option \<Rightarrow> number option \<Rightarrow> number option \<Rightarrow> position list \<Rightarrow> position list"
where
  "filterByRadius fp centerLat centerLon radiusKm rows =
     (case (centerLat, centerLon, radiusKm) of
        (Some la, Some lo, Some r) \<Rightarrow> filter (inRadius fp la lo r) rows
      | _ \<Rightarrow> rows)"

text \<open>
  The loop over the identifiers. The results of the two queries are arguments:
  \<open>aircraftResult\<close> is the row list of the first one and \<open>positionsResult id\<close> the row
  list of the second one for the identifier \<open>id\<close>; \<open>codes\<close> is the military set and
  \<open>fp\<close> the arithmetic.
\<close>

fun tracks_loop ::
  "arith \<Rightarrow> string set \<Rightarrow> (string \<Rightarrow> position list) \<Rightarrow>
   number option \<Rightarrow> number option \<Rightarrow> number option \<Rightarrow>
   aircraft_row list \<Rightarrow> aircraft_track list \<Rightarrow> aircraft_track list"
where
  "tracks_loop fp codes positionsResult centerLat centerLon radiusKm [] tracks = tracks"
| "tracks_loop fp codes positionsResult centerLat centerLon radiusKm (ac # rows) tracks =
     (let ps = filterByRadius fp centerLat centerLon radiusKm (positionsResult (icao24 ac));
          segs = splitIntoSegments ps
      in tracks_loop fp codes positionsResult centerLat centerLon radiusKm rows
           (if length ps \<ge> 2
            then tracks @
              [\<lparr>icao24 = icao24 ac, callsign = callsign ac, aircraft_type = aircraft_type ac,
                track_positions = ps, segments = segs,
                is_military = isMilitary codes (Some (icao24 ac))\<rparr>]
            else tracks))"

definition getAllTracksLast24h ::
  "arith \<Rightarrow> string set \<Rightarrow> aircraft_row list \<Rightarrow> (string \<Rightarrow> position list) \<Rightarrow>
   number option \<Rightarrow> number option \<Rightarrow> number option \<Rightarrow> aircraft_track list"
where
  "getAllTracksLast24h fp codes aircraftResult positionsResult centerLat centerLon radiusKm =
     tracks_loop fp codes positionsResult centerLat centerLon radiusKm aircraftResult []"

text \<open>A position with coordinates only, for examples.\<close>

definition at_point :: "real \<Rightarrow> real \<Rightarrow> int \<Rightarrow> position" where
  "at_point la lo t =
     \<lparr>latitude = Some la, longitude = Some lo, altitude = None, velocity = None,
      heading = None, timestamp = 1000 * t\<rparr>"

text \<open>Query results for examples: a row with an identifier only, and a position table
  with two samples for \<open>14f001\<close> and one for \<open>14f002\<close>.\<close>

definition row_of :: "string \<Rightarrow> aircraft_row" where
  "row_of h = \<lparr>icao24 = h, callsign = None, aircraft_type = None\<rparr>"

definition two_ids :: "string \<Rightarrow> position list" where
  "two_ids h =
     (if h = ''14f001'' then [at_seconds 0, at_seconds 60]
      else if h = ''14f002'' then [at_seconds 0]
      else [])"

section \<open>Ingestion cycle\<close>

subsection \<open>The store\<close>

text \<open>
  The three tables of the migration. A time stamp is a number of milliseconds. The
  \<open>aircraft\<close> table is keyed by \<open>icao24\<close> (a unique column); the \<open>positions\<close> table is a
  list in insertion order; \<open>daily_stats\<close> is keyed by the date, a day number. The serial
  \<open>id\<close> columns are left out.
\<close>

record aircraft_rec = aircraft_row +
  origin_country :: "string option"
  registration :: "string option"
  first_seen :: int
  last_seen :: int
  total_sightings :: int

record position_row = position +
  pos_icao24 :: string
  pos_callsign :: "string option"
  vertical_rate :: "real option"
  on_ground :: bool

record daily_stats_row =
  unique_aircraft :: int
  total_positions :: int
  military_count :: int
  civilian_count :: int

record db =
  aircraft_table :: "string \<rightharpoonup> aircraft_rec"
  positions_table :: "position_row list"
  daily_stats_table :: "int \<rightharpoonup> daily_stats_row"

text \<open>
  The statement \<open>INSERT INTO aircraft ... ON CONFLICT (icao24) DO UPDATE SET ...\<close> with
  the parameters \<open>$1\<close>, \<open>$2\<close>, \<open>$3\<close>, executed at time \<open>now\<close>. \<open>COALESCE(x, y)\<close> is \<open>x\<close>
  unless \<open>x\<close> is null. A new row takes the column defaults: \<open>first_seen\<close> is the current
  time and \<open>registration\<close> is null.
\<close>

definition coalesce :: "'a option \<Rightarrow> 'a option \<Rightarrow> 'a option" where
  "coalesce x y = (case x of Some v \<Rightarrow> Some v | None \<Rightarrow> y)"

definition upsert_aircraft ::
  "int \<Rightarrow> string \<Rightarrow> string option \<Rightarrow> string option \<Rightarrow> db \<Rightarrow> db"
where
  "upsert_aircraft now p1 p2 p3 d =
     (case aircraft_table d p1 of
        None \<Rightarrow>
          d\<lparr>aircraft_table := (aircraft_table d)(p1 \<mapsto>
              \<lparr>icao24 = p1, callsign = p2, aircraft_type = p3,
               origin_country = Some ''Russia'', registration = None,
               first_seen = now, last_seen = now, total_sightings = 1\<rparr>)\<rparr>
      | Some old \<Rightarrow>
          d\<lparr>aircraft_table := (aircraft_table d)(p1 \<mapsto>
              old\<lparr>callsign := coalesce p2 (callsign old),
                  aircraft_type := coalesce p3 (aircraft_type old),
                  last_seen := now,
                  total_sightings := total_sightings old + 1\<rparr>)\<rparr>)"

text \<open>\<open>INSERT INTO positions (...) VALUES ($1, ..., $9)\<close>: the row is appended.\<close>

definition insert_position :: "position_row \<Rightarrow> db \<Rightarrow> db" where
  "insert_position row d = d\<lparr>positions_table := positions_table d @ [row]\<rparr>"

text \<open>\<open>DELETE FROM positions WHERE timestamp < NOW() - INTERVAL '24 hours'\<close>.\<close>

definition DAY_MS :: int where
  "DAY_MS = 24 * 60 * 60 * 1000"

definition delete_old :: "int \<Rightarrow> db \<Rightarrow> db" where
  "delete_old now d =
     d\<lparr>positions_table := filter (\<lambda>p. \<not> timestamp p < now - DAY_MS) (positions_table d)\<rparr>"

text \<open>The two statements of \<open>updateDailyStats\<close>: the counts of the day's positions, and
  the upsert of the day's row, which overwrites the two counts of an existing row.\<close>

definition day_of :: "int \<Rightarrow> int" where
  "day_of t = t div DAY_MS"

definition select_stats :: "int \<Rightarrow> db \<Rightarrow> int \<times> int" where
  "select_stats today d =
     (let rows = filter (\<lambda>p. day_of (timestamp p) = today) (positions_table d)
      in (int (card (set (map pos_icao24 rows))), int (length rows)))"

definition upsert_stats :: "int \<Rightarrow> int \<Rightarrow> int \<Rightarrow> db \<Rightarrow> db" where
  "upsert_stats today p2 p3 d =
     (case daily_stats_table d today of
        None \<Rightarrow>
          d\<lparr>daily_stats_table := (daily_stats_table d)(today \<mapsto>
              \<lparr>unique_aircraft = p2, total_positions = p3,
               military_count = 0, civilian_count = 0\<rparr>)\<rparr>
      | Some old \<Rightarrow>
          d\<lparr>daily_stats_table := (daily_stats_table d)(today \<mapsto>
              old\<lparr>unique_aircraft := p2, total_positions := p3\<rparr>)\<rparr>)"

text \<open>
  A call of \<open>query\<close> may throw (a lost connection, a violated column constraint, ...).
  The statements of a cycle are counted: statement number \<open>n\<close> throws when \<open>faults n\<close>
  holds, and it executes at the time \<open>clock n\<close>. A world is the store together with the
  number of statements issued so far. \<open>query\<close> returns the new world and whether the
  statement succeeded; a statement that throws changes nothing.
\<close>

type_synonym world = "db \<times> nat"

definition query :: "(nat \<Rightarrow> bool) \<Rightarrow> (db \<Rightarrow> db) \<Rightarrow> world \<Rightarrow> world \<times> bool" where
  "query faults effect w =
     (case w of (d, n) \<Rightarrow>
        if faults n then ((d, Suc n), False) else ((effect d, Suc n), True))"

subsection \<open>The cycle\<close>

text \<open>\<open>cleanupOldData\<close>: a failure is caught.\<close>

definition cleanupOldData :: "(nat \<Rightarrow> bool) \<Rightarrow> (nat \<Rightarrow> int) \<Rightarrow> world \<Rightarrow> world" where
  "cleanupOldData faults clock w = fst (query faults (delete_old (clock (snd w))) w)"

text \<open>\<open>updateDailyStats\<close>: when the first statement throws, the second one is not issued;
  a failure of either is caught.\<close>

definition updateDailyStats :: "(nat \<Rightarrow> bool) \<Rightarrow> (nat \<Rightarrow> int) \<Rightarrow> world \<Rightarrow> world" where
  "updateDailyStats faults clock w =
     (let today = day_of (clock (snd w));
          (unique, total) = select_stats today (fst w);
          (w1, ok) = query faults (\<lambda>d. d) w
      in if ok then fst (query faults (upsert_stats today unique total) w1) else w1)"

text \<open>The values computed for one aircraft in the loop of
  \<open>fetchAndStoreRussianAircraft\<close>. \<open>a ?? b\<close> is \<open>coalesce a b\<close>; \<open>a || b\<close> on strings takes
  \<open>b\<close> when \<open>a\<close> is missing or empty.\<close>

definition resolved_altitude :: "ac_state \<Rightarrow> alt_value option" where
  "resolved_altitude ac = coalesce (alt_baro ac) (map_option Num (alt_geom ac))"

definition stored_altitude :: "alt_value option \<Rightarrow> real option" where
  "stored_altitude a = (case a of Some (Num x) \<Rightarrow> Some x | _ \<Rightarrow> None)"

definition onGround :: "ac_state \<Rightarrow> bool" where
  "onGround ac = (alt_baro ac = Some Ground \<or> resolved_altitude ac = Some (Num 0))"

definition type_param :: "ac_state \<Rightarrow> string option" where
  "type_param ac =
     (if truthy_str (ac_t ac) then ac_t ac
      else if truthy_str (ac_desc ac) then ac_desc ac
      else None)"

text \<open>The row that the position statement inserts at time \<open>now\<close>: the nine parameters,
  and the column default for \<open>timestamp\<close>.\<close>

definition new_position :: "int \<Rightarrow> string \<Rightarrow> ac_state \<Rightarrow> position_row" where
  "new_position now ident ac =
     \<lparr>latitude = lat ac,
      longitude = lon ac,
      altitude = stored_altitude (resolved_altitude ac),
      velocity = coalesce (gs ac) None,
      heading = coalesce (track ac) None,
      timestamp = now,
      pos_icao24 = ident,
      pos_callsign = trim_or_null (flight ac),
      vertical_rate = coalesce (baro_rate ac) (coalesce (geom_rate ac) None),
      on_ground = onGround ac\<rparr>"

text \<open>
  The body of the loop for one aircraft, inside its \<open>try\<close>: the state is the world and
  \<open>storedCount\<close>. An exception of the upsert skips the position statement; an exception
  of the position statement skips the increment.
\<close>

definition store_aircraft ::
  "(nat \<Rightarrow> bool) \<Rightarrow> (nat \<Rightarrow> int) \<Rightarrow> ac_state \<Rightarrow> world \<times> nat \<Rightarrow> world \<times> nat"
where
  "store_aircraft faults clock ac st =
     (case st of (w, storedCount) \<Rightarrow>
        if \<not> truthy_str (map_option toLowerCase (hex ac)) then (w, storedCount)
        else
          (let ident = toLowerCase (the (hex ac));
               (w1, ok1) = query faults
                  (upsert_aircraft (clock (snd w)) ident (trim_or_null (flight ac)) (type_param ac)) w
           in if \<not> ok1 then (w1, storedCount)
              else if lat ac \<noteq> None \<and> lon ac \<noteq> None then
                (let (w2, ok2) = query faults
                        (insert_position (new_position (clock (snd w1)) ident ac)) w1
                 in if ok2 then (w2, storedCount + 1) else (w2, storedCount))
              else (w1, storedCount)))"

fun store_loop ::
  "(nat \<Rightarrow> bool) \<Rightarrow> (nat \<Rightarrow> int) \<Rightarrow> ac_state list \<Rightarrow> world \<times> nat \<Rightarrow> world \<times> nat"
where
  "store_loop faults clock [] st = st"
| "store_loop faults clock (ac # acs) st =
     store_loop faults clock acs (store_aircraft faults clock ac st)"

record tracker_result =
  tracked :: nat
  stored :: nat

text \<open>
  \<open>fetchAndStoreRussianAircraft\<close>, from the store \<open>d\<close> and the responses of the two
  feeds. No statement of the body can throw past its own \<open>try\<close>, so the function always
  returns: the result is the store after the cycle and the summary.
\<close>

definition fetchAndStoreRussianAircraft ::
  "(nat \<Rightarrow> bool) \<Rightarrow> (nat \<Rightarrow> int) \<Rightarrow> ac_state list option list \<Rightarrow>
   opensky_state list option list \<Rightarrow> db \<Rightarrow> db \<times> tracker_result"
where
  "fetchAndStoreRussianAircraft faults clock adsbResponses openSkyResponses d =
     (let w0 = cleanupOldData faults clock (d, 0);
          adsbData = fetchFromADSBone adsbResponses;
          openSkyAircraft = fetchFromOpenSky openSkyResponses;
          mergedAircraft = mergeAircraft adsbData openSkyAircraft
      in if length mergedAircraft = 0 then (fst w0, \<lparr>tracked = 0, stored = 0\<rparr>)
         else
           (let russianAircraft = filter (\<lambda>ac. isRussianAircraft (hex ac)) mergedAircraft;
                (w1, storedCount) = store_loop faults clock russianAircraft (w0, 0);
                w2 = updateDailyStats faults clock w1
            in (fst w2, \<lparr>tracked = length russianAircraft, stored = storedCount\<rparr>)))"

text \<open>An empty store, and an aircraft state with coordinates, for examples.\<close>

definition empty_db :: db where
  "empty_db = \<lparr>aircraft_table = Map.empty, positions_table = [], daily_stats_table = Map.empty\<rparr>"

definition state_at :: "string \<Rightarrow> real option \<Rightarrow> real option \<Rightarrow> alt_value option \<Rightarrow> ac_state" where
  "state_at h la lo alt =
     \<lparr>hex = Some h, flight = None, lat = la, lon = lo, alt_baro = alt,
      alt_geom = None, gs = None, track = None, baro_rate = None, geom_rate = None,
      ac_t = None, ac_desc = None\<rparr>"

text \<open>\<open>row_from ac row\<close>: the row is the position row of the aircraft state \<open>ac\<close>, which
  has both coordinates, inserted at the time the row carries.\<close>

definition row_from :: "ac_state \<Rightarrow> position_row \<Rightarrow> bool" where
  "row_from ac row =
     (lat ac \<noteq> None \<and> lon ac \<noteq> None
      \<and> row = new_position (timestamp row) (toLowerCase (the (hex ac))) ac)"

text \<open>The feed of the examples: two aircraft of interest, one of them without a
  longitude, and one aircraft outside the prefix range.\<close>

definition example_feed :: "ac_state list option list" where
  "example_feed =
     [Some [state_at ''14F001'' (Some 1) (Some 2) (Some Ground),
            state_at ''14f002'' (Some 1) None None,
            state_at ''3c0001'' (Some 1) (Some 2) None]]"

text \<open>A store with one aircraft record, first seen at time 1000, and an OpenSky state
  vector with an identifier only, for examples.\<close>

definition example_db :: db where
  "example_db = upsert_aircraft 1000 ''14f001'' (Some ''AFL1'') None empty_db"

definition os_state_of :: "string \<Rightarrow> opensky_state" where
  "os_state_of h =
     \<lparr>os_icao24 = Some h, os_callsign = None, os_longitude = None, os_latitude = None,
      os_baro_altitude = None, os_velocity = None, os_true_track = None,
      os_vertical_rate = None, os_geo_altitude = None\<rparr>"

section \<open>Properties of the classifier\<close>

lemmas case_simps =
  toLowerCase_def toUpperCase_def toLowerCase_char_def toUpperCase_char_def
  upper_letters_def lower_letters_def

lemma toLowerCase_char_idem: "toLowerCase_char (toLowerCase_char c) = toLowerCase_char c"
  by (simp add: toLowerCase_char_def upper_letters_def lower_letters_def)

lemma toLowerCase_idem: "toLowerCase (toLowerCase s) = toLowerCase s"
  by (simp add: toLowerCase_def toLowerCase_char_idem)

lemma toLowerCase_char_upper: "toLowerCase_char (toUpperCase_char c) = toLowerCase_char c"
  by (simp add: toLowerCase_char_def toUpperCase_char_def upper_letters_def lower_letters_def)

lemma toLowerCase_upper: "toLowerCase (toUpperCase s) = toLowerCase s"
  by (simp add: toLowerCase_def toUpperCase_def toLowerCase_char_upper)

lemma isRussianAircraft_Some:
  "isRussianAircraft (Some s) = (take 3 (toLowerCase s) \<in> set RUSSIAN_ICAO_PREFIXES)"
proof (cases "s = []")
  case True
  then show ?thesis
    by (simp add: isRussianAircraft_def toLowerCase_def RUSSIAN_ICAO_PREFIXES_def)
next
  case False
  then show ?thesis
    by (simp add: isRussianAircraft_def substring_def Let_def)
qed

lemma prefixes_range: "RUSSIAN_ICAO_PREFIXES = map hex3 [0x140 ..< 0x158]"
  by (simp add: RUSSIAN_ICAO_PREFIXES_def hex3_def hexdigit_def upt_rec)

text \<open>
  Claim C6. \<open>isRussianAircraft\<close> is true exactly when the first three characters of the
  lower-cased identifier are one of the prefixes \<open>140 .. 157\<close> (hex); it is false for an
  absent or empty identifier; and two identifiers that differ only in casing (they have
  the same lower-casing, as an identifier and its upper-casing do) get the same answer.
\<close>

theorem isRussianAircraft_spec:
  "isRussianAircraft (Some s) = (take 3 (toLowerCase s) \<in> set RUSSIAN_ICAO_PREFIXES)
   \<and> set RUSSIAN_ICAO_PREFIXES = hex3 ` {0x140 .. 0x157}
   \<and> isRussianAircraft None = False
   \<and> isRussianAircraft (Some []) = False
   \<and> isRussianAircraft (Some (toUpperCase s)) = isRussianAircraft (Some s)
   \<and> isRussianAircraft (Some (toLowerCase s)) = isRussianAircraft (Some s)
   \<and> (toLowerCase s = toLowerCase s' \<longrightarrow>
        isRussianAircraft (Some s) = isRussianAircraft (Some s'))"
proof -
  have "{0x140 .. 0x157 :: nat} = set [0x140 ..< 0x158]"
    by (simp only: set_upt) auto
  then have "set RUSSIAN_ICAO_PREFIXES = hex3 ` {0x140 .. 0x157}"
    by (simp only: prefixes_range set_map)
  moreover have "isRussianAircraft None = False" "isRussianAircraft (Some []) = False"
    by (simp_all add: isRussianAircraft_def)
  ultimately show ?thesis
    by (simp add: isRussianAircraft_Some toLowerCase_upper toLowerCase_idem)
qed

theorem isRussianAircraft_spec_witness:
  "toLowerCase ''14A0fF'' = toLowerCase ''14a0Ff''
   \<and> isRussianAircraft (Some ''14A0fF'') = isRussianAircraft (Some ''14a0Ff'')
   \<and> isRussianAircraft (Some ''14A0fF'')
   \<and> \<not> isRussianAircraft (Some ''3c6444'')"
proof -
  have e: "toLowerCase ''14A0fF'' = toLowerCase ''14a0Ff''"
    by (simp add: case_simps)
  have "isRussianAircraft (Some ''14A0fF'') = isRussianAircraft (Some ''14a0Ff'')"
    using isRussianAircraft_spec [of "''14A0fF''" "''14a0Ff''"] e by blast
  moreover have "isRussianAircraft (Some ''14A0fF'')"
    by (simp add: isRussianAircraft_def substring_def case_simps Let_def
        RUSSIAN_ICAO_PREFIXES_def)
  moreover have "\<not> isRussianAircraft (Some ''3c6444'')"
    by (simp add: isRussianAircraft_def substring_def case_simps Let_def
        RUSSIAN_ICAO_PREFIXES_def)
  ultimately show ?thesis
    using e by simp
qed

section \<open>Properties of the military lookup\<close>

lemma forEach_item_no_empty:
  "[] \<notin> codes \<Longrightarrow> [] \<notin> fst (forEach_item items codes)"
proof (induction items arbitrary: codes)
  case Nil
  then show ?case by simp
next
  case (Cons item items)
  show ?case
  proof (cases "get_hex item")
    case (Inl e)
    with Cons.prems show ?thesis by simp
  next
    case (Inr ho)
    show ?thesis
    proof (cases ho)
      case None
      with Inr Cons show ?thesis by simp
    next
      case (Some h)
      show ?thesis
      proof (cases "truthy h")
        case False
        with Inr Some Cons show ?thesis by simp
      next
        case True
        show ?thesis
        proof (cases h)
          case (JStr s)
          with True have "toLowerCase s \<noteq> []"
            by (simp add: toLowerCase_def)
          with Cons.prems have "[] \<notin> insert (toLowerCase s) codes"
            by auto
          from Cons.IH [OF this] Inr Some True JStr show ?thesis
            by simp
        qed (use Inr Some True Cons.prems in simp_all)
      qed
    qed
  qed
qed

lemma militaryHexCodes_no_empty: "[] \<notin> militaryHexCodes d"
proof (cases d)
  case (Parsed j)
  have "[] \<notin> fst (forEach_item items {})" for items
    by (rule forEach_item_no_empty) simp
  then show ?thesis
    using Parsed
    by (cases j) (simp_all add: militaryHexCodes_def load_military_def load_try_def
        case_prod_beta)
qed (simp_all add: militaryHexCodes_def load_military_def load_try_def)

text \<open>
  Claim C9. Loading never ends with an exception, whatever the dataset is. When the file
  is missing or unparseable the set is empty and \<open>isMilitary\<close> is false for every
  identifier, absent ones included. For the loaded set, \<open>isMilitary\<close> of a present
  identifier is membership of its lower-casing, and \<open>isMilitary\<close> of an absent one is
  false.
\<close>

theorem isMilitary_spec:
  "snd (load_military d) = None
   \<and> militaryHexCodes Missing = {}
   \<and> militaryHexCodes Unparseable = {}
   \<and> isMilitary (militaryHexCodes Missing) ident = False
   \<and> isMilitary (militaryHexCodes Unparseable) ident = False
   \<and> isMilitary (militaryHexCodes d) (Some s) = (toLowerCase s \<in> militaryHexCodes d)
   \<and> isMilitary (militaryHexCodes d) None = False"
proof -
  have "snd (load_military d) = None"
    by (simp add: load_military_def case_prod_beta)
  moreover have "militaryHexCodes Missing = {}" "militaryHexCodes Unparseable = {}"
    by (simp_all add: militaryHexCodes_def load_military_def load_try_def)
  moreover have "isMilitary (militaryHexCodes d) None = False"
    using militaryHexCodes_no_empty [of d] by (simp add: isMilitary_def)
  ultimately show ?thesis
    by (simp add: isMilitary_def)
qed

lemma militaryHexCodes_example:
  "militaryHexCodes (Parsed (JArr [JObj [(''hex'', JStr ''AE01CE'')], JObj [(''reg'', JStr ''x'')],
      JObj [(''hex'', JStr ''43c6f1'')]])) = {''ae01ce'', ''43c6f1''}"
  by (simp add: militaryHexCodes_def load_military_def load_try_def case_simps insert_commute)


section \<open>Properties of the segmenter\<close>

declare split_loop.simps [simp del]

lemmas split_eval =
  splitIntoSegments_def split_loop.simps add_final_def at_seconds_def
  MAX_POSITION_GAP_SECONDS_def

text \<open>The example of the specification: one gap, two segments, the second one flagged
  with the gap of 480 seconds.\<close>

lemma splitIntoSegments_one_gap:
  "splitIntoSegments (map at_seconds [0, 60, 120, 600, 660]) =
     [\<lparr>positions = map at_seconds [0, 60, 120], hasGapBefore = False,
       gapDurationSeconds = None\<rparr>,
      \<lparr>positions = map at_seconds [600, 660], hasGapBefore = True,
       gapDurationSeconds = Some 480\<rparr>]"
  by (simp add: split_eval)

text \<open>
  Claim C1, at the samples 0 s, 600 s, 1200 s. Both gaps (600 s each) exceed the threshold
  and three segments are emitted, but the segment \<open>[600]\<close>, which follows the first gap,
  carries \<open>hasGapBefore = False\<close> and no gap duration: only the last segment is flagged.
\<close>

theorem splitIntoSegments_two_gaps:
  "splitIntoSegments (map at_seconds [0, 600, 1200]) =
     [\<lparr>positions = [at_seconds 0], hasGapBefore = False, gapDurationSeconds = None\<rparr>,
      \<lparr>positions = [at_seconds 600], hasGapBefore = False, gapDurationSeconds = None\<rparr>,
      \<lparr>positions = [at_seconds 1200], hasGapBefore = True,
       gapDurationSeconds = Some 600\<rparr>]"
  by (simp add: split_eval)

lemma split_loop_concat:
  "split_loop ps i segs cur = (segs', cur') \<Longrightarrow>
   concat (map positions segs') @ cur' = concat (map positions segs) @ cur @ drop i ps"
proof (induction ps i segs cur rule: split_loop.induct)
  case (1 ps i segments currentSegment)
  show ?case
  proof (cases "i < length ps")
    case False
    with "1.prems" show ?thesis
      by (simp add: split_loop.simps [of ps i])
  next
    case True
    let ?gap = "real_of_int (timestamp (ps ! i) - timestamp (ps ! (i - 1))) / 1000"
    have d: "drop i ps = ps ! i # drop (Suc i) ps"
      using True by (simp add: Cons_nth_drop_Suc)
    show ?thesis
    proof (cases "?gap > MAX_POSITION_GAP_SECONDS")
      case gap: True
      from "1.prems" True gap have
        "split_loop ps (i + 1)
           ((if length currentSegment \<ge> 1
             then segments @
               [\<lparr>positions = currentSegment,
                 hasGapBefore = (if length segments > 0 then False else False),
                 gapDurationSeconds = None\<rparr>]
             else segments) @
            [\<lparr>positions = [], hasGapBefore = True, gapDurationSeconds = Some ?gap\<rparr>])
           [ps ! i] = (segs', cur')"
        by (simp add: split_loop.simps [of ps i] Let_def)
      from "1.IH"(1) [OF True refl refl refl gap this] show ?thesis
        by (cases currentSegment) (simp_all add: d)
    next
      case nogap: False
      from "1.prems" True nogap have
        "split_loop ps (i + 1) segments (currentSegment @ [ps ! i]) = (segs', cur')"
        by (simp add: split_loop.simps [of ps i] Let_def)
      from "1.IH"(2) [OF True refl refl refl nogap this] show ?thesis
        by (simp add: d)
    qed
  qed
qed


lemma add_final_concat:
  "concat (map positions (add_final segs cur)) = concat (map positions segs) @ cur"
proof (cases segs rule: rev_cases)
  case Nil
  then show ?thesis by (cases cur) (simp_all add: add_final_def)
next
  case (snoc segs' m)
  then show ?thesis
    by (cases cur) (simp_all add: add_final_def Let_def)
qed

lemma concat_filter_nonempty:
  "concat (map positions (filter (\<lambda>s. length (positions s) \<ge> 1) segs)) =
   concat (map positions segs)"
  by (induction segs) (auto simp: Suc_le_eq)

text \<open>
  Claim C10. The segments partition the input: their position lists, concatenated in
  order, are the input sequence, and no emitted segment has an empty position list.
\<close>

theorem splitIntoSegments_partition:
  "concat (map positions (splitIntoSegments ps)) = ps
   \<and> [] \<notin> set (map positions (splitIntoSegments ps))"
proof (cases ps)
  case Nil
  then show ?thesis by (simp add: splitIntoSegments_def)
next
  case (Cons p ps')
  obtain segs cur where l: "split_loop ps 1 [] [ps ! 0] = (segs, cur)"
    by (cases "split_loop ps 1 [] [ps ! 0]")
  from split_loop_concat [OF l] Cons
  have "concat (map positions segs) @ cur = ps"
    by simp
  moreover have "splitIntoSegments ps =
      filter (\<lambda>s. length (positions s) \<ge> 1) (add_final segs cur)"
    using l Cons by (simp add: splitIntoSegments_def)
  ultimately have "concat (map positions (splitIntoSegments ps)) = ps"
    by (simp only: concat_filter_nonempty add_final_concat)
  moreover have "[] \<notin> set (map positions (splitIntoSegments ps))"
    by (auto simp: splitIntoSegments_def split: prod.splits)
  ultimately show ?thesis by simp
qed

lemma runs_nonempty: "runs (p # ps) \<noteq> []"
  by (induction ps arbitrary: p) (auto split: list.splits)

lemma runs_hd: "hd (hd (runs (p # ps))) = p"
  by (cases ps) (auto split: list.splits)

lemma add_final_filter:
  "cur \<noteq> [] \<Longrightarrow>
   map positions (filter (\<lambda>s. length (positions s) \<ge> 1) (add_final segs cur)) =
   map positions (filter (\<lambda>s. length (positions s) \<ge> 1) segs) @ [cur]"
proof (cases segs rule: rev_cases)
  case Nil
  assume "cur \<noteq> []"
  with Nil show ?thesis by (cases cur) (simp_all add: add_final_def)
next
  case (snoc segs' m)
  assume "cur \<noteq> []"
  with snoc show ?thesis
    by (cases cur) (auto simp: add_final_def Let_def)
qed

lemma split_loop_runs:
  assumes "split_loop ps i segs cur = (segs', cur')"
    and "0 < i" and "i \<le> length ps" and "cur \<noteq> []" and "last cur = ps ! (i - 1)"
  shows "cur' \<noteq> [] \<and>
     map positions (filter (\<lambda>s. length (positions s) \<ge> 1) segs') @ [cur'] =
     map positions (filter (\<lambda>s. length (positions s) \<ge> 1) segs) @
       (butlast cur @ hd (runs (drop (i - 1) ps))) # tl (runs (drop (i - 1) ps))"
  using assms
proof (induction ps i segs cur rule: split_loop.induct)
  case (1 ps i segments currentSegment)
  let ?prev = "ps ! (i - 1)"
  have cur: "butlast currentSegment @ [?prev] = currentSegment"
    using "1.prems"(4,5) by (metis append_butlast_last_id)
  show ?case
  proof (cases "i < length ps")
    case False
    with "1.prems"(3) have "i = length ps" by simp
    with "1.prems"(2) have "drop (i - 1) ps = [?prev]"
      by (metis Cons_nth_drop_Suc Suc_pred' diff_less drop_all le_refl less_numeral_extra(1))
    moreover from False "1.prems"(1) have "segs' = segments" "cur' = currentSegment"
      by (simp_all add: split_loop.simps [of ps i])
    ultimately show ?thesis
      using cur "1.prems"(4) by simp
  next
    case True
    let ?curr = "ps ! i"
    let ?gap = "real_of_int (timestamp ?curr - timestamp ?prev) / 1000"
    have d: "drop i ps = ?curr # drop (Suc i) ps"
      using True by (simp add: Cons_nth_drop_Suc)
    have d': "drop (i - 1) ps = ?prev # ?curr # drop (Suc i) ps"
      using True "1.prems"(2) d
      by (metis Cons_nth_drop_Suc Suc_pred' less_imp_diff_less)
    have g: "gap_seconds ?prev ?curr = ?gap"
      by (simp add: gap_seconds_def)
    obtain r rs where rr: "runs (?curr # drop (Suc i) ps) = r # rs"
      using runs_nonempty by (meson list.exhaust)
    show ?thesis
    proof (cases "?gap > MAX_POSITION_GAP_SECONDS")
      case gap: True
      let ?segs2 = "(if length currentSegment \<ge> 1
             then segments @
               [\<lparr>positions = currentSegment,
                 hasGapBefore = (if length segments > 0 then False else False),
                 gapDurationSeconds = None\<rparr>]
             else segments) @
            [\<lparr>positions = [], hasGapBefore = True, gapDurationSeconds = Some ?gap\<rparr>]"
      from "1.prems"(1) True gap have
        l: "split_loop ps (i + 1) ?segs2 [?curr] = (segs', cur')"
        by (simp add: split_loop.simps [of ps i] Let_def)
      have "cur' \<noteq> [] \<and>
        map positions (filter (\<lambda>s. length (positions s) \<ge> 1) segs') @ [cur'] =
        map positions (filter (\<lambda>s. length (positions s) \<ge> 1) ?segs2) @
          (butlast [?curr] @ hd (runs (drop (i + 1 - 1) ps))) # tl (runs (drop (i + 1 - 1) ps))"
        using True by (intro "1.IH"(1) [OF True refl refl refl gap l]) simp_all
      moreover have "map positions (filter (\<lambda>s. length (positions s) \<ge> 1) ?segs2) =
          map positions (filter (\<lambda>s. length (positions s) \<ge> 1) segments) @ [currentSegment]"
        using "1.prems"(4) by (cases currentSegment) simp_all
      moreover have "runs (drop (i - 1) ps) = [?prev] # r # rs"
        using d' g gap rr by simp
      ultimately show ?thesis
        using cur d rr by simp
    next
      case nogap: False
      from "1.prems"(1) True nogap have
        l: "split_loop ps (i + 1) segments (currentSegment @ [?curr]) = (segs', cur')"
        by (simp add: split_loop.simps [of ps i] Let_def)
      have "cur' \<noteq> [] \<and>
        map positions (filter (\<lambda>s. length (positions s) \<ge> 1) segs') @ [cur'] =
        map positions (filter (\<lambda>s. length (positions s) \<ge> 1) segments) @
          (butlast (currentSegment @ [?curr]) @ hd (runs (drop (i + 1 - 1) ps)))
             # tl (runs (drop (i + 1 - 1) ps))"
        using True by (intro "1.IH"(2) [OF True refl refl refl nogap l]) simp_all
      moreover have "runs (drop (i - 1) ps) = (?prev # r) # rs"
        using d' g nogap rr by simp
      ultimately show ?thesis
        using cur d rr by simp
    qed
  qed
qed

text \<open>For every input, the position lists of the segments are the runs of the
  specification: the code cuts exactly at the gaps above the threshold.\<close>

lemma splitIntoSegments_runs: "map positions (splitIntoSegments ps) = runs ps"
proof (cases ps)
  case Nil
  then show ?thesis by (simp add: splitIntoSegments_def)
next
  case (Cons p ps')
  obtain segs cur where l: "split_loop ps 1 [] [ps ! 0] = (segs, cur)"
    by (cases "split_loop ps 1 [] [ps ! 0]")
  from split_loop_runs [OF l] Cons have
    c: "cur \<noteq> []"
      "map positions (filter (\<lambda>s. length (positions s) \<ge> 1) segs) @ [cur] =
         hd (runs ps) # tl (runs ps)"
    by simp_all
  have "splitIntoSegments ps =
      filter (\<lambda>s. length (positions s) \<ge> 1) (add_final segs cur)"
    using l Cons by (simp add: splitIntoSegments_def)
  then have "map positions (splitIntoSegments ps) =
      map positions (filter (\<lambda>s. length (positions s) \<ge> 1) segs) @ [cur]"
    by (simp only: add_final_filter [OF c(1)])
  then have "map positions (splitIntoSegments ps) = hd (runs ps) # tl (runs ps)"
    by (simp only: c(2))
  then show ?thesis
    using Cons runs_nonempty by simp
qed


lemma split_loop_unflagged:
  assumes "split_loop ps i segs cur = (segs', cur')"
    and "\<forall>s \<in> set segs. positions s \<noteq> [] \<longrightarrow> \<not> hasGapBefore s \<and> gapDurationSeconds s = None"
  shows "\<forall>s \<in> set segs'. positions s \<noteq> [] \<longrightarrow> \<not> hasGapBefore s \<and> gapDurationSeconds s = None"
  using assms
proof (induction ps i segs cur rule: split_loop.induct)
  case (1 ps i segments currentSegment)
  show ?case
  proof (cases "i < length ps")
    case False
    with "1.prems" show ?thesis
      by (simp add: split_loop.simps [of ps i])
  next
    case True
    let ?gap = "real_of_int (timestamp (ps ! i) - timestamp (ps ! (i - 1))) / 1000"
    show ?thesis
    proof (cases "?gap > MAX_POSITION_GAP_SECONDS")
      case gap: True
      let ?segs2 = "(if length currentSegment \<ge> 1
             then segments @
               [\<lparr>positions = currentSegment,
                 hasGapBefore = (if length segments > 0 then False else False),
                 gapDurationSeconds = None\<rparr>]
             else segments) @
            [\<lparr>positions = [], hasGapBefore = True, gapDurationSeconds = Some ?gap\<rparr>]"
      from "1.prems"(1) True gap have
        l: "split_loop ps (i + 1) ?segs2 [ps ! i] = (segs', cur')"
        by (simp add: split_loop.simps [of ps i] Let_def)
      have "\<forall>s \<in> set ?segs2. positions s \<noteq> [] \<longrightarrow>
          \<not> hasGapBefore s \<and> gapDurationSeconds s = None"
        using "1.prems"(2) by auto
      from "1.IH"(1) [OF True refl refl refl gap l this] show ?thesis .
    next
      case nogap: False
      from "1.prems"(1) True nogap have
        l: "split_loop ps (i + 1) segments (currentSegment @ [ps ! i]) = (segs', cur')"
        by (simp add: split_loop.simps [of ps i] Let_def)
      from "1.IH"(2) [OF True refl refl refl nogap l "1.prems"(2)] show ?thesis .
    qed
  qed
qed

lemma add_final_last:
  assumes "cur \<noteq> []"
  shows "\<exists>f. filter (\<lambda>s. length (positions s) \<ge> 1) (add_final segs cur) =
            filter (\<lambda>s. length (positions s) \<ge> 1) segs @ [f]"
proof (cases segs rule: rev_cases)
  case Nil
  with assms show ?thesis by (cases cur) (simp_all add: add_final_def)
next
  case (snoc segs' m)
  with assms show ?thesis
    by (cases cur) (auto simp: add_final_def Let_def)
qed

text \<open>For every input, no segment but the last one is flagged or carries a gap
  duration, whatever gap precedes it.\<close>

lemma splitIntoSegments_unflagged:
  "\<forall>s \<in> set (butlast (splitIntoSegments ps)).
     \<not> hasGapBefore s \<and> gapDurationSeconds s = None"
proof (cases ps)
  case Nil
  then show ?thesis by (simp add: splitIntoSegments_def)
next
  case (Cons p ps')
  obtain segs cur where l: "split_loop ps 1 [] [ps ! 0] = (segs, cur)"
    by (cases "split_loop ps 1 [] [ps ! 0]")
  from split_loop_runs [OF l] Cons have c: "cur \<noteq> []"
    by simp
  from split_loop_unflagged [OF l] have
    u: "\<forall>s \<in> set segs. positions s \<noteq> [] \<longrightarrow> \<not> hasGapBefore s \<and> gapDurationSeconds s = None"
    by simp
  have "splitIntoSegments ps =
      filter (\<lambda>s. length (positions s) \<ge> 1) (add_final segs cur)"
    using l Cons by (simp add: splitIntoSegments_def)
  with add_final_last [OF c, of segs] obtain f where
    "splitIntoSegments ps = filter (\<lambda>s. length (positions s) \<ge> 1) segs @ [f]"
    by auto
  then have "butlast (splitIntoSegments ps) = filter (\<lambda>s. length (positions s) \<ge> 1) segs"
    by simp
  with u show ?thesis by auto
qed

section \<open>Properties of the track query\<close>

lemma tracks_loop_eq:
  "tracks_loop fp codes q cla clo r rows tracks =
     tracks @ map (\<lambda>ac. \<lparr>icao24 = icao24 ac, callsign = callsign ac, aircraft_type = aircraft_type ac,
                track_positions = filterByRadius fp cla clo r (q (icao24 ac)),
                segments = splitIntoSegments (filterByRadius fp cla clo r (q (icao24 ac))),
                is_military = isMilitary codes (Some (icao24 ac))\<rparr>)
       (filter (\<lambda>ac. length (filterByRadius fp cla clo r (q (icao24 ac))) \<ge> 2) rows)"
  by (induction rows arbitrary: tracks) (simp_all add: Let_def)

text \<open>
  Claim C3. Every track of the result has at least two positions, which are the
  qualifying samples of its identifier (those left by the optional radius filter); an
  identifier with fewer than two qualifying samples has no track in the result. The
  identifiers of the result are those of the rows with at least two qualifying samples,
  in order.
\<close>

theorem getAllTracksLast24h_two_samples:
  "(\<forall>t \<in> set (getAllTracksLast24h fp codes rows q cla clo r).
      length (track_positions t) \<ge> 2
      \<and> track_positions t = filterByRadius fp cla clo r (q (icao24 t))
      \<and> icao24 t \<in> icao24 ` set rows)
   \<and> (length (filterByRadius fp cla clo r (q ident)) < 2 \<longrightarrow>
        ident \<notin> icao24 ` set (getAllTracksLast24h fp codes rows q cla clo r))
   \<and> map icao24 (getAllTracksLast24h fp codes rows q cla clo r) =
       map icao24 (filter (\<lambda>ac. length (filterByRadius fp cla clo r (q (icao24 ac))) \<ge> 2) rows)"
proof -
  let ?res = "getAllTracksLast24h fp codes rows q cla clo r"
  have a: "\<forall>t \<in> set ?res.
      length (track_positions t) \<ge> 2
      \<and> track_positions t = filterByRadius fp cla clo r (q (icao24 t))
      \<and> icao24 t \<in> icao24 ` set rows"
    by (auto simp: getAllTracksLast24h_def tracks_loop_eq)
  have b: "ident \<notin> icao24 ` set ?res" if "length (filterByRadius fp cla clo r (q ident)) < 2"
  proof
    assume "ident \<in> icao24 ` set ?res"
    then obtain t where "t \<in> set ?res" "icao24 t = ident"
      by auto
    with a have "length (filterByRadius fp cla clo r (q ident)) \<ge> 2"
      by auto
    with that show False by simp
  qed
  have c: "map icao24 ?res =
       map icao24 (filter (\<lambda>ac. length (filterByRadius fp cla clo r (q (icao24 ac))) \<ge> 2) rows)"
    by (simp add: getAllTracksLast24h_def tracks_loop_eq comp_def)
  from a b c show ?thesis by blast
qed

theorem getAllTracksLast24h_two_samples_witness:
  "\<forall>fp. length (filterByRadius fp None None None (two_ids ''14f002'')) < 2
   \<and> ''14f002'' \<notin> icao24 ` set (getAllTracksLast24h fp {} [row_of ''14f001'', row_of ''14f002'']
         two_ids None None None)
   \<and> map icao24 (getAllTracksLast24h fp {} [row_of ''14f001'', row_of ''14f002'']
         two_ids None None None) = [''14f001'']
   \<and> length (track_positions (hd (getAllTracksLast24h fp {} [row_of ''14f001'', row_of ''14f002'']
         two_ids None None None))) = 2"
proof
  fix fp
  have l: "length (filterByRadius fp None None None (two_ids ''14f002'')) < 2"
    by (simp add: filterByRadius_def two_ids_def)
  have e: "filter (\<lambda>ac. length (filterByRadius fp None None None (two_ids (icao24 ac))) \<ge> 2)
          [row_of ''14f001'', row_of ''14f002''] = [row_of ''14f001'']"
    by (simp add: filterByRadius_def two_ids_def row_of_def)
  note t = getAllTracksLast24h_two_samples [of fp "{}" "[row_of ''14f001'', row_of ''14f002'']"
      two_ids None None None "''14f002''"]
  from t l have n: "''14f002'' \<notin> icao24 ` set (getAllTracksLast24h fp {}
      [row_of ''14f001'', row_of ''14f002''] two_ids None None None)"
    by blast
  from t have m: "map icao24 (getAllTracksLast24h fp {} [row_of ''14f001'', row_of ''14f002'']
         two_ids None None None) = [''14f001'']"
    unfolding e by (simp add: row_of_def)
  have h: "length (track_positions (hd (getAllTracksLast24h fp {} [row_of ''14f001'', row_of ''14f002'']
         two_ids None None None))) = 2"
    by (simp add: getAllTracksLast24h_def filterByRadius_def two_ids_def row_of_def Let_def)
  from l n m h show "length (filterByRadius fp None None None (two_ids ''14f002'')) < 2
   \<and> ''14f002'' \<notin> icao24 ` set (getAllTracksLast24h fp {} [row_of ''14f001'', row_of ''14f002'']
         two_ids None None None)
   \<and> map icao24 (getAllTracksLast24h fp {} [row_of ''14f001'', row_of ''14f002'']
         two_ids None None None) = [''14f001'']
   \<and> length (track_positions (hd (getAllTracksLast24h fp {} [row_of ''14f001'', row_of ''14f002'']
         two_ids None None None))) = 2"
    by simp
qed

section \<open>Properties of the radius filter\<close>

lemma js_le_NaN [simp]: "\<not> js_le NaN y" "\<not> js_le x NaN"
  by (simp_all add: js_le_def)

lemma js_gt_NaN [simp]: "\<not> js_gt NaN y" "\<not> js_gt x NaN"
  by (simp_all add: js_gt_def)

lemma js_le_Finite [simp]: "js_le (Finite x) (Finite y) = (x \<le> y)"
  by (simp add: js_le_def)

lemma js_gt_Finite [simp]: "js_gt (Finite x) (Finite y) = (y < x)"
  by (simp add: js_gt_def)

lemma js_le_refl: "js_le x x = (\<not> is_NaN x)"
  by (simp add: js_le_def)

text \<open>Of two numbers neither of which is \<open>NaN\<close>, \<open>x <= y\<close> holds exactly when \<open>x > y\<close>
  does not.\<close>

lemma js_le_iff_not_gt: "\<not> is_NaN x \<Longrightarrow> \<not> is_NaN y \<Longrightarrow> js_le x y = (\<not> js_gt x y)"
  by (auto simp: js_le_def js_gt_def)

text \<open>
  What the filter does, for every arithmetic: with a center and a radius supplied, a
  sample is kept exactly when it has both coordinates and the comparison
  \<open>distance <= radiusKm\<close> holds of the computed distance.
\<close>

lemma inRadius_iff:
  "inRadius fp cla clo r p =
     (\<exists>la lo. latitude p = Some la \<and> longitude p = Some lo
        \<and> js_le (haversineDistance fp cla clo (Finite la) (Finite lo)) r)"
  by (cases "latitude p"; cases "longitude p") (simp_all add: inRadius_def)

lemma filterByRadius_supplied:
  "filterByRadius fp (Some cla) (Some clo) (Some r) ps = filter (inRadius fp cla clo r) ps"
  by (simp add: filterByRadius_def)

text \<open>So where neither the computed distance nor the radius is \<open>NaN\<close>, a sample with
  coordinates is dropped exactly when the distance exceeds the radius, and it is kept
  when the two are equal.\<close>

lemma inRadius_numbers:
  assumes "latitude p = Some la" and "longitude p = Some lo"
    and "\<not> is_NaN (haversineDistance fp cla clo (Finite la) (Finite lo))" and "\<not> is_NaN r"
  shows "inRadius fp cla clo r p =
     (\<not> js_gt (haversineDistance fp cla clo (Finite la) (Finite lo)) r)"
  using assms by (simp add: inRadius_iff js_le_iff_not_gt)

lemma inRadius_boundary:
  assumes "latitude p = Some la" and "longitude p = Some lo"
    and "haversineDistance fp cla clo (Finite la) (Finite lo) = r" and "\<not> is_NaN r"
  shows "inRadius fp cla clo r p"
  using assms by (simp add: inRadius_iff js_le_refl)

text \<open>
  A distance that is \<open>NaN\<close> drops the sample, whatever the radius. The distance is \<open>NaN\<close>
  when the rounded value of \<open>a\<close> exceeds 1, as it does for some points close to the
  antipode of the center: then \<open>1 - a\<close> is negative and \<open>Math.sqrt(1 - a)\<close> is \<open>NaN\<close>. The
  premises on the arithmetic are rules of the doubles: \<open>Math.atan2\<close> of a \<open>NaN\<close> is
  \<open>NaN\<close>, and so is a product with a \<open>NaN\<close>.
\<close>

lemma haversineDistance_a:
  "haversineDistance fp cla clo la lo =
     js_mul fp (Finite 6371)
       (js_mul fp (Finite 2)
          (Math_atan2 fp (Math_sqrt fp (haversine_a fp cla clo la lo))
             (Math_sqrt fp (js_sub fp (Finite 1) (haversine_a fp cla clo la lo)))))"
  by (simp add: haversineDistance_def haversine_a_def Let_def)

lemma haversineDistance_NaN:
  assumes "Math_sqrt fp (js_sub fp (Finite 1) (haversine_a fp cla clo la lo)) = NaN"
    and "\<And>y. Math_atan2 fp y NaN = NaN"
    and "\<And>x. js_mul fp x NaN = NaN"
  shows "haversineDistance fp cla clo la lo = NaN"
  using assms by (simp add: haversineDistance_a)

lemma inRadius_NaN_distance:
  "haversineDistance fp cla clo (Finite la) (Finite lo) = NaN \<Longrightarrow>
   latitude p = Some la \<Longrightarrow> longitude p = Some lo \<Longrightarrow> \<not> inRadius fp cla clo r p"
  by (simp add: inRadius_iff)

text \<open>
  Claim C7. For every arithmetic, a sample is kept exactly when it has both coordinates
  and the comparison \<open>distance <= radiusKm\<close> holds of the computed distance, and that
  comparison is false as soon as the distance or the radius is \<open>NaN\<close>. So a sample with
  coordinates is dropped, without its distance exceeding the radius (\<open>distance > radiusKm\<close>
  is false as well), when the computed distance is \<open>NaN\<close>, and when the radius that
  reaches the filter is \<open>NaN\<close>: then every sample is dropped, among them the sample at
  the center itself.
\<close>

theorem filterByRadius_NaN:
  "inRadius fp cla clo r p =
     (\<exists>la lo. latitude p = Some la \<and> longitude p = Some lo
        \<and> js_le (haversineDistance fp cla clo (Finite la) (Finite lo)) r)
   \<and> \<not> js_le NaN r \<and> \<not> js_gt NaN r
   \<and> \<not> js_le x NaN \<and> \<not> js_gt x NaN
   \<and> filterByRadius fp (Some cla) (Some clo) (Some NaN) ps = []
   \<and> filterByRadius fp (Some (Finite 60.17)) (Some (Finite 24.94)) (Some NaN)
        [at_point 60.17 24.94 0] = []
   \<and> latitude (at_point 60.17 24.94 0) = Some 60.17
   \<and> longitude (at_point 60.17 24.94 0) = Some 24.94"
proof -
  have "\<not> inRadius fp c1 c2 NaN q" for c1 c2 q
    by (simp add: inRadius_iff)
  then have "filterByRadius fp (Some c1) (Some c2) (Some NaN) qs = []" for c1 c2 qs
    by (simp add: filterByRadius_supplied)
  then show ?thesis
    by (simp add: at_point_def inRadius_iff)
qed

text \<open>The positions of every emitted track are the samples of its identifier that the
  filter keeps.\<close>

lemma getAllTracksLast24h_filtered:
  "\<forall>t \<in> set (getAllTracksLast24h fp codes rows q (Some cla) (Some clo) (Some r)).
     track_positions t = filter (inRadius fp cla clo r) (q (icao24 t))"
  by (auto simp: getAllTracksLast24h_def tracks_loop_eq filterByRadius_def)

section \<open>Properties of the fusion\<close>

lemma lower_ids_append: "lower_ids (xs @ ys) = lower_ids xs @ lower_ids ys"
  by (simp add: lower_ids_def)

lemma lower_ids_filter: "lower_ids (filter (\<lambda>ac. truthy_str (hex ac)) acs) = lower_ids acs"
  by (simp add: lower_ids_def)

lemma merge_adsb_eq:
  "merge_adsb acs (m, seen) =
     (m @ filter (\<lambda>ac. truthy_str (hex ac)) acs, seen \<union> set (lower_ids acs))"
  by (induction acs arbitrary: m seen) (simp_all add: lower_ids_def)

text \<open>The OpenSky loop appends a sublist \<open>k\<close> of its input whose lower-cased identifiers
  are distinct and are exactly the new ones.\<close>

lemma merge_opensky_inv:
  "\<exists>k. merge_opensky acs (m, seen) = (m @ k, seen \<union> set (lower_ids acs))
       \<and> set k \<subseteq> set acs
       \<and> distinct (lower_ids k)
       \<and> set (lower_ids k) = set (lower_ids acs) - seen
       \<and> (\<forall>ac \<in> set k. truthy_str (hex ac))"
proof (induction acs arbitrary: m seen)
  case Nil
  then show ?case by (simp add: lower_ids_def)
next
  case (Cons ac acs)
  show ?case
  proof (cases "truthy_str (hex ac) \<and> toLowerCase (the (hex ac)) \<notin> seen")
    case True
    let ?h = "toLowerCase (the (hex ac))"
    from Cons.IH [of "m @ [ac]" "insert ?h seen"] obtain k where
      k: "merge_opensky acs (m @ [ac], insert ?h seen) =
            ((m @ [ac]) @ k, insert ?h seen \<union> set (lower_ids acs))"
        "set k \<subseteq> set acs" "distinct (lower_ids k)"
        "set (lower_ids k) = set (lower_ids acs) - insert ?h seen"
        "\<forall>ac \<in> set k. truthy_str (hex ac)"
      by blast
    have l: "lower_ids (ac # acs) = ?h # lower_ids acs" "lower_ids (ac # k) = ?h # lower_ids k"
      using True by (simp_all add: lower_ids_def)
    have "merge_opensky (ac # acs) (m, seen) = (m @ (ac # k), seen \<union> set (lower_ids (ac # acs)))"
      using True k(1) l by simp
    moreover have "set (ac # k) \<subseteq> set (ac # acs)"
      using k(2) by auto
    moreover have "distinct (lower_ids (ac # k))"
      using k(3,4) l by simp
    moreover have "set (lower_ids (ac # k)) = set (lower_ids (ac # acs)) - seen"
      using k(4) l True by auto
    moreover have "\<forall>a \<in> set (ac # k). truthy_str (hex a)"
      using True k(5) by simp
    ultimately show ?thesis by blast
  next
    case False
    from Cons.IH [of m seen] obtain k where
      k: "merge_opensky acs (m, seen) = (m @ k, seen \<union> set (lower_ids acs))"
        "set k \<subseteq> set acs" "distinct (lower_ids k)"
        "set (lower_ids k) = set (lower_ids acs) - seen"
        "\<forall>ac \<in> set k. truthy_str (hex ac)"
      by blast
    have s: "seen \<union> set (lower_ids (ac # acs)) = seen \<union> set (lower_ids acs)"
      "set (lower_ids (ac # acs)) - seen = set (lower_ids acs) - seen"
      using False by (auto simp: lower_ids_def)
    have "merge_opensky (ac # acs) (m, seen) = (m @ k, seen \<union> set (lower_ids (ac # acs)))"
      using False k(1) s by auto
    moreover have "set k \<subseteq> set (ac # acs)"
      using k(2) by auto
    ultimately show ?thesis
      using k(3,4,5) s by blast
  qed
qed

lemma mergeAircraft_shape:
  "\<exists>k. mergeAircraft adsb osky = filter (\<lambda>ac. truthy_str (hex ac)) adsb @ k
       \<and> set k \<subseteq> set osky
       \<and> distinct (lower_ids k)
       \<and> set (lower_ids k) = set (lower_ids osky) - set (lower_ids adsb)
       \<and> (\<forall>ac \<in> set k. truthy_str (hex ac))"
proof -
  from merge_opensky_inv [of osky "filter (\<lambda>ac. truthy_str (hex ac)) adsb" "set (lower_ids adsb)"]
  show ?thesis
    by (auto simp: mergeAircraft_def merge_adsb_eq)
qed

text \<open>What holds of the merge for all inputs: the lower-cased identifiers of the fused
  list are those of the two adapters together; an entry whose lower-cased identifier
  ADSB.one reported is an ADSB.one entry; and the fused list has one entry per
  lower-cased identifier exactly when the ADSB.one list has.\<close>

lemma mergeAircraft_ids:
  "set (lower_ids (mergeAircraft adsb osky)) = set (lower_ids adsb) \<union> set (lower_ids osky)"
proof -
  from mergeAircraft_shape [of adsb osky] obtain k where
    "mergeAircraft adsb osky = filter (\<lambda>ac. truthy_str (hex ac)) adsb @ k"
    "set (lower_ids k) = set (lower_ids osky) - set (lower_ids adsb)"
    by blast
  then show ?thesis
    by (auto simp: lower_ids_append lower_ids_filter)
qed

lemma mergeAircraft_distinct:
  "distinct (lower_ids (mergeAircraft adsb osky)) = distinct (lower_ids adsb)"
proof -
  from mergeAircraft_shape [of adsb osky] obtain k where
    "mergeAircraft adsb osky = filter (\<lambda>ac. truthy_str (hex ac)) adsb @ k"
    "distinct (lower_ids k)"
    "set (lower_ids k) = set (lower_ids osky) - set (lower_ids adsb)"
    by blast
  then show ?thesis
    by (auto simp: lower_ids_append lower_ids_filter)
qed

lemma mergeAircraft_priority:
  assumes "ac \<in> set (mergeAircraft adsb osky)"
    and "toLowerCase (the (hex ac)) \<in> set (lower_ids adsb)"
  shows "ac \<in> set adsb"
proof -
  from mergeAircraft_shape [of adsb osky] obtain k where
    k: "mergeAircraft adsb osky = filter (\<lambda>ac. truthy_str (hex ac)) adsb @ k"
    "set (lower_ids k) = set (lower_ids osky) - set (lower_ids adsb)"
    "\<forall>ac \<in> set k. truthy_str (hex ac)"
    by blast
  have "ac \<notin> set k"
  proof
    assume "ac \<in> set k"
    with k(3) have "toLowerCase (the (hex ac)) \<in> set (lower_ids k)"
      by (auto simp: lower_ids_def)
    with k(2) assms(2) show False by simp
  qed
  with assms(1) k(1) show ?thesis by auto
qed

lemma mergeAircraft_adsb_kept:
  "ac \<in> set adsb \<Longrightarrow> truthy_str (hex ac) \<Longrightarrow> ac \<in> set (mergeAircraft adsb osky)"
  using mergeAircraft_shape [of adsb osky] by auto

text \<open>The ADSB.one adapter removes duplicates by the identifier as received, so two
  entries of its output may still agree after lower-casing.\<close>

lemma adsb_point_inv:
  "distinct (map (\<lambda>ac. the (hex ac)) m) \<Longrightarrow> seen = set (map (\<lambda>ac. the (hex ac)) m) \<Longrightarrow>
   adsb_point acs (m, seen) = (m', seen') \<Longrightarrow>
   distinct (map (\<lambda>ac. the (hex ac)) m') \<and> seen' = set (map (\<lambda>ac. the (hex ac)) m')"
proof (induction acs arbitrary: m seen)
  case Nil
  then show ?case by auto
next
  case (Cons ac acs)
  show ?case
  proof (cases "truthy_str (hex ac) \<and> the (hex ac) \<notin> seen")
    case True
    with Cons.prems have "adsb_point acs (m @ [ac], insert (the (hex ac)) seen) = (m', seen')"
      by simp
    moreover have "distinct (map (\<lambda>ac. the (hex ac)) (m @ [ac]))"
      "insert (the (hex ac)) seen = set (map (\<lambda>ac. the (hex ac)) (m @ [ac]))"
      using True Cons.prems(1,2) by auto
    ultimately show ?thesis
      using Cons.IH by blast
  next
    case False
    with Cons.prems have "adsb_point acs (m, seen) = (m', seen')"
      by auto
    with Cons.IH Cons.prems(1,2) show ?thesis by blast
  qed
qed

lemma adsb_points_inv:
  "distinct (map (\<lambda>ac. the (hex ac)) m) \<Longrightarrow> seen = set (map (\<lambda>ac. the (hex ac)) m) \<Longrightarrow>
   adsb_points rs (m, seen) = (m', seen') \<Longrightarrow>
   distinct (map (\<lambda>ac. the (hex ac)) m') \<and> seen' = set (map (\<lambda>ac. the (hex ac)) m')"
proof (induction rs arbitrary: m seen)
  case Nil
  then show ?case by auto
next
  case (Cons resp rs)
  show ?case
  proof (cases resp)
    case None
    with Cons show ?thesis by simp
  next
    case (Some acs)
    obtain m1 seen1 where p: "adsb_point acs (m, seen) = (m1, seen1)"
      by (cases "adsb_point acs (m, seen)")
    from adsb_point_inv [OF Cons.prems(1,2) p] Cons.IH [of m1 seen1] Cons.prems(3) Some p
    show ?thesis by simp
  qed
qed

lemma fetchFromADSBone_distinct:
  "distinct (map (\<lambda>ac. the (hex ac)) (fetchFromADSBone responses))"
proof -
  obtain m' seen' where "adsb_points responses ([], {}) = (m', seen')"
    by (cases "adsb_points responses ([], {})")
  from adsb_points_inv [OF _ _ this] this show ?thesis
    by (simp add: fetchFromADSBone_def)
qed

text \<open>
  Claim C2, when ADSB.one reports \<open>14F001\<close> and \<open>14f001\<close> in one response. The adapter
  keeps both (its \<open>seenHex\<close> holds the identifiers as received), and the merge pushes
  every ADSB.one entry without looking into its own \<open>seenHex\<close>: the fused list has two
  entries with the lower-cased identifier \<open>14f001\<close>.
\<close>

theorem mergeAircraft_mixed_case:
  "fetchFromADSBone [Some [state_of ''14F001'' ''AFL1'', state_of ''14f001'' ''AFL2'']] =
     [state_of ''14F001'' ''AFL1'', state_of ''14f001'' ''AFL2'']
   \<and> mergeAircraft
       (fetchFromADSBone [Some [state_of ''14F001'' ''AFL1'', state_of ''14f001'' ''AFL2'']])
       (fetchFromOpenSky []) =
     [state_of ''14F001'' ''AFL1'', state_of ''14f001'' ''AFL2'']
   \<and> lower_ids [state_of ''14F001'' ''AFL1'', state_of ''14f001'' ''AFL2''] =
     [''14f001'', ''14f001'']"
  by (simp add: mergeAircraft_def fetchFromADSBone_def fetchFromOpenSky_def state_of_def
      truthy_str_def lower_ids_def case_simps)

text \<open>The same pair coming from OpenSky: the second loop of the merge tests the
  lower-cased identifier, and one entry survives.\<close>

lemma mergeAircraft_opensky_mixed_case:
  "map hex (mergeAircraft (fetchFromADSBone [])
       (fetchFromOpenSky [Some [os_state_of ''14F001'', os_state_of ''14f001'']])) =
     [Some ''14F001'']"
  by (simp add: mergeAircraft_def fetchFromADSBone_def fetchFromOpenSky_def os_state_of_def
      of_opensky_def truthy_str_def case_simps)

section \<open>Properties of the ingestion cycle\<close>

lemma query_positions:
  "query faults effect (d, n) = ((d', n'), ok) \<Longrightarrow>
   n' = Suc n \<and> (if ok then d' = effect d else d' = d)"
  by (auto simp: query_def split: if_splits)

lemma upsert_positions [simp]:
  "positions_table (upsert_aircraft now p1 p2 p3 d) = positions_table d"
  by (simp add: upsert_aircraft_def split: option.splits)

lemma upsert_stats_positions [simp]:
  "positions_table (upsert_stats today p2 p3 d) = positions_table d"
  by (simp add: upsert_stats_def split: option.splits)

lemma store_aircraft_rows:
  assumes "store_aircraft faults clock ac ((d, n), c) = ((d', n'), c')"
  shows "\<exists>new. positions_table d' = positions_table d @ new \<and> c' = c + length new
      \<and> length new \<le> (if lat ac \<noteq> None \<and> lon ac \<noteq> None then 1 else 0)
      \<and> (\<forall>row \<in> set new. row_from ac row)"
proof (cases "truthy_str (map_option toLowerCase (hex ac))")
  case False
  with assms show ?thesis
    by (simp add: store_aircraft_def)
next
  case True
  let ?ident = "toLowerCase (the (hex ac))"
  obtain d1 n1 ok1 where q1: "query faults
      (upsert_aircraft (clock n) ?ident (trim_or_null (flight ac)) (type_param ac)) (d, n) =
      ((d1, n1), ok1)"
    by (metis surj_pair)
  from query_positions [OF q1] have p1: "positions_table d1 = positions_table d"
    by (auto split: if_splits)
  show ?thesis
  proof (cases "ok1 \<and> lat ac \<noteq> None \<and> lon ac \<noteq> None")
    case False
    with assms True q1 have "d' = d1" "c' = c"
      by (auto simp: store_aircraft_def Let_def split: if_splits)
    with p1 show ?thesis by simp
  next
    case ok: True
    obtain d2 n2 ok2 where q2: "query faults
        (insert_position (new_position (clock n1) ?ident ac)) (d1, n1) = ((d2, n2), ok2)"
      by (metis surj_pair)
    from assms True q1 ok q2 have r: "d' = d2" "c' = (if ok2 then c + 1 else c)"
      by (auto simp: store_aircraft_def Let_def split: if_splits)
    show ?thesis
    proof (cases ok2)
      case True
      with query_positions [OF q2] have "positions_table d2 =
          positions_table d1 @ [new_position (clock n1) ?ident ac]"
        by (simp add: insert_position_def)
      moreover have "row_from ac (new_position (clock n1) ?ident ac)"
        using ok by (simp add: row_from_def new_position_def)
      ultimately show ?thesis
        using r p1 True ok by simp
    next
      case False
      with query_positions [OF q2] have "positions_table d2 = positions_table d1"
        by simp
      with r p1 False show ?thesis by simp
    qed
  qed
qed

lemma store_loop_rows:
  "store_loop faults clock acs ((d, n), c) = ((d', n'), c') \<Longrightarrow>
   \<exists>new. positions_table d' = positions_table d @ new \<and> c' = c + length new
      \<and> length new \<le> length (filter (\<lambda>ac. lat ac \<noteq> None \<and> lon ac \<noteq> None) acs)
      \<and> (\<forall>row \<in> set new. \<exists>ac \<in> set acs. row_from ac row)"
proof (induction acs arbitrary: d n c)
  case Nil
  then show ?case by simp
next
  case (Cons ac acs)
  obtain d1 n1 c1 where s: "store_aircraft faults clock ac ((d, n), c) = ((d1, n1), c1)"
    by (metis surj_pair)
  from store_aircraft_rows [OF s] obtain new1 where
    n1: "positions_table d1 = positions_table d @ new1" "c1 = c + length new1"
      "length new1 \<le> (if lat ac \<noteq> None \<and> lon ac \<noteq> None then 1 else 0)"
      "\<forall>row \<in> set new1. row_from ac row"
    by blast
  from Cons.prems s have "store_loop faults clock acs ((d1, n1), c1) = ((d', n'), c')"
    by simp
  from Cons.IH [OF this] obtain new2 where
    n2: "positions_table d' = positions_table d1 @ new2" "c' = c1 + length new2"
      "length new2 \<le> length (filter (\<lambda>ac. lat ac \<noteq> None \<and> lon ac \<noteq> None) acs)"
      "\<forall>row \<in> set new2. \<exists>ac \<in> set acs. row_from ac row"
    by blast
  have "positions_table d' = positions_table d @ (new1 @ new2)"
    using n1(1) n2(1) by simp
  moreover have "c' = c + length (new1 @ new2)"
    using n1(2) n2(2) by simp
  moreover have "length (new1 @ new2) \<le>
      length (filter (\<lambda>ac. lat ac \<noteq> None \<and> lon ac \<noteq> None) (ac # acs))"
    using n1(3) n2(3) by (simp split: if_splits)
  moreover have "\<forall>row \<in> set (new1 @ new2). \<exists>a \<in> set (ac # acs). row_from a row"
    using n1(4) n2(4) by auto
  ultimately show ?case by blast
qed

lemma updateDailyStats_positions:
  "positions_table (fst (updateDailyStats faults clock w)) = positions_table (fst w)"
proof -
  obtain d n where w: "w = (d, n)" by (cases w)
  show ?thesis
    by (simp add: w updateDailyStats_def query_def Let_def split: prod.splits)
qed

lemma cycle_rows:
  assumes "fetchAndStoreRussianAircraft faults clock adsbResponses openSkyResponses d = (d', r)"
  shows "\<exists>new. positions_table d' =
              positions_table (fst (cleanupOldData faults clock (d, 0))) @ new
          \<and> tracked r = length (filter (\<lambda>ac. isRussianAircraft (hex ac))
               (mergeAircraft (fetchFromADSBone adsbResponses)
                  (fetchFromOpenSky openSkyResponses)))
          \<and> stored r = length new
          \<and> length new \<le> length (filter (\<lambda>ac. lat ac \<noteq> None \<and> lon ac \<noteq> None)
               (filter (\<lambda>ac. isRussianAircraft (hex ac))
                 (mergeAircraft (fetchFromADSBone adsbResponses)
                    (fetchFromOpenSky openSkyResponses))))
          \<and> (\<forall>row \<in> set new. \<exists>ac \<in> set (filter (\<lambda>ac. isRussianAircraft (hex ac))
                 (mergeAircraft (fetchFromADSBone adsbResponses)
                    (fetchFromOpenSky openSkyResponses))). row_from ac row)"
proof -
  let ?merged = "mergeAircraft (fetchFromADSBone adsbResponses) (fetchFromOpenSky openSkyResponses)"
  let ?russian = "filter (\<lambda>ac. isRussianAircraft (hex ac)) ?merged"
  let ?w0 = "cleanupOldData faults clock (d, 0)"
  show ?thesis
  proof (cases "length ?merged = 0")
    case True
    with assms have "d' = fst ?w0" "r = \<lparr>tracked = 0, stored = 0\<rparr>"
      by (simp_all add: fetchAndStoreRussianAircraft_def Let_def)
    with True show ?thesis by simp
  next
    case False
    obtain d0 n0 where w0: "?w0 = (d0, n0)" by (cases ?w0)
    obtain d1 n1 c1 where l: "store_loop faults clock ?russian ((d0, n0), 0) = ((d1, n1), c1)"
      by (metis surj_pair)
    from assms False w0 l have
      res: "d' = fst (updateDailyStats faults clock (d1, n1))"
        "r = \<lparr>tracked = length ?russian, stored = c1\<rparr>"
      by (simp_all add: fetchAndStoreRussianAircraft_def Let_def)
    from store_loop_rows [OF l] obtain new where
      new: "positions_table d1 = positions_table d0 @ new" "c1 = length new"
        "length new \<le> length (filter (\<lambda>ac. lat ac \<noteq> None \<and> lon ac \<noteq> None) ?russian)"
        "\<forall>row \<in> set new. \<exists>ac \<in> set ?russian. row_from ac row"
      by auto
    have p: "positions_table d' = positions_table (fst ?w0) @ new"
      using res(1) new(1) w0 by (simp add: updateDailyStats_positions)
    from p new(2,3,4) res(2) show ?thesis
      by auto
  qed
qed

text \<open>
  Claim C4. Whenever a cycle returns the store \<open>d'\<close> and the summary \<open>r\<close>: \<open>tracked\<close> is
  the number of fused states that pass \<open>isRussianAircraft\<close>; the positions table is the
  table left by the cleanup followed by the rows inserted in this cycle; \<open>stored\<close> is
  the number of these rows; every one of them has a latitude and a longitude, those of
  a filtered state that has both; and \<open>stored\<close> is at most \<open>tracked\<close>.
\<close>

theorem ingestion_summary:
  assumes "fetchAndStoreRussianAircraft faults clock adsbResponses openSkyResponses d = (d', r)"
  shows "tracked r = length (filter (\<lambda>ac. isRussianAircraft (hex ac))
             (mergeAircraft (fetchFromADSBone adsbResponses) (fetchFromOpenSky openSkyResponses)))
    \<and> (\<exists>new. positions_table d' =
              positions_table (fst (cleanupOldData faults clock (d, 0))) @ new
          \<and> stored r = length new
          \<and> (\<forall>row \<in> set new. latitude row \<noteq> None \<and> longitude row \<noteq> None)
          \<and> (\<forall>row \<in> set new. \<exists>ac \<in> set (filter (\<lambda>ac. isRussianAircraft (hex ac))
                 (mergeAircraft (fetchFromADSBone adsbResponses)
                    (fetchFromOpenSky openSkyResponses))).
                lat ac \<noteq> None \<and> lon ac \<noteq> None
                \<and> latitude row = lat ac \<and> longitude row = lon ac))
    \<and> stored r \<le> tracked r"
proof -
  let ?russian = "filter (\<lambda>ac. isRussianAircraft (hex ac))
     (mergeAircraft (fetchFromADSBone adsbResponses) (fetchFromOpenSky openSkyResponses))"
  from cycle_rows [OF assms] obtain new where
    new: "positions_table d' = positions_table (fst (cleanupOldData faults clock (d, 0))) @ new"
      "tracked r = length ?russian" "stored r = length new"
      "length new \<le> length (filter (\<lambda>ac. lat ac \<noteq> None \<and> lon ac \<noteq> None) ?russian)"
      "\<forall>row \<in> set new. \<exists>ac \<in> set ?russian. row_from ac row"
    by blast
  have f: "\<forall>row \<in> set new. \<exists>ac \<in> set ?russian.
      lat ac \<noteq> None \<and> lon ac \<noteq> None \<and> latitude row = lat ac \<and> longitude row = lon ac"
  proof
    fix row assume "row \<in> set new"
    with new(5) obtain ac where ac: "ac \<in> set ?russian" "row_from ac row"
      by blast
    from ac(2) have "lat ac \<noteq> None \<and> lon ac \<noteq> None" "row =
        new_position (timestamp row) (toLowerCase (the (hex ac))) ac"
      by (simp_all add: row_from_def)
    then have "lat ac \<noteq> None \<and> lon ac \<noteq> None \<and> latitude row = lat ac \<and> longitude row = lon ac"
      by (metis (no_types) new_position_def position.select_convs(1,2))
    with ac(1) show "\<exists>ac \<in> set ?russian.
      lat ac \<noteq> None \<and> lon ac \<noteq> None \<and> latitude row = lat ac \<and> longitude row = lon ac"
      by blast
  qed
  then have g: "\<forall>row \<in> set new. latitude row \<noteq> None \<and> longitude row \<noteq> None"
    by metis
  have "length new \<le> length ?russian"
    using new(4) length_filter_le [of "\<lambda>ac. lat ac \<noteq> None \<and> lon ac \<noteq> None" ?russian]
    by linarith
  with new(1,2,3) f g show ?thesis
    by auto
qed

lemmas cycle_eval =
  fetchAndStoreRussianAircraft_def cleanupOldData_def updateDailyStats_def query_def
  store_aircraft_def fetchFromADSBone_def fetchFromOpenSky_def mergeAircraft_def
  example_feed_def state_at_def empty_db_def truthy_str_def isRussianAircraft_def
  substring_def RUSSIAN_ICAO_PREFIXES_def case_simps delete_old_def insert_position_def
  upsert_aircraft_def upsert_stats_def select_stats_def new_position_def Let_def

lemma example_cycle_summary:
  "snd (fetchAndStoreRussianAircraft (\<lambda>n. False) (\<lambda>n. 1000 * int n) example_feed [] empty_db)
     = \<lparr>tracked = 2, stored = 1\<rparr>"
  by (simp add: cycle_eval)

lemma example_cycle_rows:
  "map pos_icao24 (positions_table (fst (fetchAndStoreRussianAircraft (\<lambda>n. False) (\<lambda>n. 1000 * int n) example_feed [] empty_db)))
     = [''14f001'']"
  by (simp add: cycle_eval)


theorem ingestion_summary_witness:
  "snd (fetchAndStoreRussianAircraft (\<lambda>n. False) (\<lambda>n. 1000 * int n) example_feed [] empty_db)
     = \<lparr>tracked = 2, stored = 1\<rparr>
   \<and> stored (snd (fetchAndStoreRussianAircraft (\<lambda>n. False) (\<lambda>n. 1000 * int n)
          example_feed [] empty_db))
     \<le> tracked (snd (fetchAndStoreRussianAircraft (\<lambda>n. False) (\<lambda>n. 1000 * int n)
          example_feed [] empty_db))
   \<and> map pos_icao24 (positions_table (fst (fetchAndStoreRussianAircraft (\<lambda>n. False)
          (\<lambda>n. 1000 * int n) example_feed [] empty_db))) = [''14f001'']"
proof -
  let ?E = "fetchAndStoreRussianAircraft (\<lambda>n. False) (\<lambda>n. 1000 * int n) example_feed [] empty_db"
  have "?E = (fst ?E, snd ?E)"
    by simp
  from ingestion_summary [OF this] have "stored (snd ?E) \<le> tracked (snd ?E)"
    by blast
  then show ?thesis
    using example_cycle_summary example_cycle_rows by simp
qed

lemma example_cycle_fault:
  "snd (fetchAndStoreRussianAircraft (\<lambda>n. n = 1) (\<lambda>n. 1000 * int n) example_feed [] empty_db)
     = \<lparr>tracked = 2, stored = 0\<rparr>"
  by (simp add: cycle_eval)

text \<open>
  Claim C5. For an identifier that has a record, the upsert leaves \<open>first_seen\<close> as it
  is, sets \<open>last_seen\<close> to the current time (which is not earlier when the clock has not
  gone back), adds one to \<open>total_sightings\<close>, and replaces the call sign and the type
  only by a non-null value. Repeating the upsert with the call sign and type the record
  now has changes neither of them, adds one to the count again and moves \<open>last_seen\<close> on.
\<close>

theorem upsert_aircraft_existing:
  assumes "aircraft_table d ident = Some old"
  shows "\<exists>new. aircraft_table (upsert_aircraft now ident cs ty d) ident = Some new
      \<and> first_seen new = first_seen old
      \<and> last_seen new = now
      \<and> (last_seen old \<le> now \<longrightarrow> last_seen old \<le> last_seen new)
      \<and> total_sightings new = total_sightings old + 1
      \<and> callsign new = (case cs of Some c \<Rightarrow> Some c | None \<Rightarrow> callsign old)
      \<and> aircraft_type new = (case ty of Some t \<Rightarrow> Some t | None \<Rightarrow> aircraft_type old)
      \<and> (\<exists>again. aircraft_table (upsert_aircraft now' ident (callsign new) (aircraft_type new)
                     (upsert_aircraft now ident cs ty d)) ident = Some again
            \<and> callsign again = callsign new
            \<and> aircraft_type again = aircraft_type new
            \<and> first_seen again = first_seen old
            \<and> last_seen again = now'
            \<and> total_sightings again = total_sightings old + 2)"
  using assms
  by (cases cs; cases ty; cases "callsign old"; cases "aircraft_type old")
    (simp_all add: upsert_aircraft_def coalesce_def)

theorem upsert_aircraft_existing_witness:
  "(\<exists>old. aircraft_table example_db ''14f001'' = Some old \<and> first_seen old = 1000
        \<and> total_sightings old = 1)
   \<and> (\<exists>new. aircraft_table (upsert_aircraft 2000 ''14f001'' None (Some ''A320'') example_db)
          ''14f001'' = Some new
        \<and> first_seen new = 1000 \<and> last_seen new = 2000 \<and> total_sightings new = 2
        \<and> callsign new = Some ''AFL1'' \<and> aircraft_type new = Some ''A320'')"
proof -
  let ?old = "\<lparr>icao24 = ''14f001'', callsign = Some ''AFL1'', aircraft_type = None,
      origin_country = Some ''Russia'', registration = None, first_seen = 1000,
      last_seen = 1000, total_sightings = 1\<rparr>"
  have e: "aircraft_table example_db ''14f001'' = Some ?old"
    by (simp add: example_db_def upsert_aircraft_def empty_db_def)
  from upsert_aircraft_existing [OF e, of 2000 None "Some ''A320''" 3000]
  have "\<exists>new. aircraft_table (upsert_aircraft 2000 ''14f001'' None (Some ''A320'') example_db)
          ''14f001'' = Some new
        \<and> first_seen new = 1000 \<and> last_seen new = 2000 \<and> total_sightings new = 2
        \<and> callsign new = Some ''AFL1'' \<and> aircraft_type new = Some ''A320''"
    by auto
  with e show ?thesis by simp
qed

text \<open>
  Claim C8. In the row inserted for an aircraft state, the altitude is the number
  \<open>alt_baro\<close>, or \<open>alt_geom\<close> when \<open>alt_baro\<close> is missing, and null when \<open>alt_baro\<close> is the
  string \<open>'ground'\<close>; the velocity and the heading are \<open>gs\<close> and \<open>track\<close>, null when
  missing; the vertical rate is \<open>baro_rate\<close>, else \<open>geom_rate\<close>, else null; and the
  on-ground flag is set exactly when \<open>alt_baro\<close> is \<open>'ground'\<close> or the resolved altitude
  is 0. Every row that a cycle inserts is such a row of a fused state.
\<close>

theorem stored_position_fields:
  "altitude (new_position now ident ac) =
     (case alt_baro ac of
        Some (Num x) \<Rightarrow> Some x
      | Some Ground \<Rightarrow> None
      | None \<Rightarrow> alt_geom ac)
   \<and> velocity (new_position now ident ac) = gs ac
   \<and> heading (new_position now ident ac) = track ac
   \<and> vertical_rate (new_position now ident ac) =
       (case baro_rate ac of Some v \<Rightarrow> Some v | None \<Rightarrow> geom_rate ac)
   \<and> on_ground (new_position now ident ac) =
       (alt_baro ac = Some Ground \<or> resolved_altitude ac = Some (Num 0))
   \<and> resolved_altitude ac =
       (case alt_baro ac of Some v \<Rightarrow> Some v | None \<Rightarrow> map_option Num (alt_geom ac))
   \<and> (fetchAndStoreRussianAircraft faults clock adsbResponses openSkyResponses d = (d', r) \<longrightarrow>
        (\<forall>row \<in> set (drop (length (positions_table (fst (cleanupOldData faults clock (d, 0)))))
                      (positions_table d')).
           \<exists>a \<in> set (mergeAircraft (fetchFromADSBone adsbResponses)
                       (fetchFromOpenSky openSkyResponses)).
             row = new_position (timestamp row) (toLowerCase (the (hex a))) a))"
proof -
  have "altitude (new_position now ident ac) =
     (case alt_baro ac of Some (Num x) \<Rightarrow> Some x | Some Ground \<Rightarrow> None | None \<Rightarrow> alt_geom ac)"
    by (cases "alt_geom ac")
      (simp_all add: new_position_def stored_altitude_def resolved_altitude_def coalesce_def
        split: option.splits alt_value.splits)
  moreover have "vertical_rate (new_position now ident ac) =
       (case baro_rate ac of Some v \<Rightarrow> Some v | None \<Rightarrow> geom_rate ac)"
    by (simp add: new_position_def coalesce_def split: option.splits)
  moreover have "velocity (new_position now ident ac) = gs ac"
    "heading (new_position now ident ac) = track ac"
    by (simp_all add: new_position_def coalesce_def split: option.splits)
  moreover have "on_ground (new_position now ident ac) =
       (alt_baro ac = Some Ground \<or> resolved_altitude ac = Some (Num 0))"
    by (simp add: new_position_def onGround_def)
  moreover have "resolved_altitude ac =
       (case alt_baro ac of Some v \<Rightarrow> Some v | None \<Rightarrow> map_option Num (alt_geom ac))"
    by (simp add: resolved_altitude_def coalesce_def)
  moreover have "\<forall>row \<in> set (drop (length (positions_table (fst (cleanupOldData faults clock (d, 0)))))
                      (positions_table d')).
           \<exists>a \<in> set (mergeAircraft (fetchFromADSBone adsbResponses)
                       (fetchFromOpenSky openSkyResponses)).
             row = new_position (timestamp row) (toLowerCase (the (hex a))) a"
    if c: "fetchAndStoreRussianAircraft faults clock adsbResponses openSkyResponses d = (d', r)"
  proof -
    from cycle_rows [OF c] obtain new where
      new: "positions_table d' = positions_table (fst (cleanupOldData faults clock (d, 0))) @ new"
        "\<forall>row \<in> set new. \<exists>ac \<in> set (filter (\<lambda>ac. isRussianAircraft (hex ac))
                 (mergeAircraft (fetchFromADSBone adsbResponses)
                    (fetchFromOpenSky openSkyResponses))). row_from ac row"
      by blast
    from new(1) have "drop (length (positions_table (fst (cleanupOldData faults clock (d, 0)))))
                      (positions_table d') = new"
      by simp
    with new(2) show ?thesis
      by (auto simp: row_from_def)
  qed
  ultimately show ?thesis by blast
qed

theorem stored_position_fields_witness:
  "fetchAndStoreRussianAircraft (\<lambda>n. False) (\<lambda>n. 1000 * int n) example_feed [] empty_db =
     (fst (fetchAndStoreRussianAircraft (\<lambda>n. False) (\<lambda>n. 1000 * int n) example_feed []
        empty_db), \<lparr>tracked = 2, stored = 1\<rparr>)
   \<and> positions_table (fst (fetchAndStoreRussianAircraft (\<lambda>n. False) (\<lambda>n. 1000 * int n)
        example_feed [] empty_db)) =
       [new_position 2000 ''14f001'' (state_at ''14F001'' (Some 1) (Some 2) (Some Ground))]
   \<and> (\<exists>a \<in> set (mergeAircraft (fetchFromADSBone example_feed) (fetchFromOpenSky [])).
        new_position 2000 ''14f001'' (state_at ''14F001'' (Some 1) (Some 2) (Some Ground)) =
        new_position 2000 (toLowerCase (the (hex a))) a)
   \<and> altitude (new_position 2000 ''14f001''
        (state_at ''14F001'' (Some 1) (Some 2) (Some Ground))) = None
   \<and> on_ground (new_position 2000 ''14f001''
        (state_at ''14F001'' (Some 1) (Some 2) (Some Ground)))
   \<and> altitude (new_position 2000 ''14f001''
        (state_at ''14F001'' (Some 1) (Some 2) (Some (Num 0)))) = Some 0
   \<and> on_ground (new_position 2000 ''14f001''
        (state_at ''14F001'' (Some 1) (Some 2) (Some (Num 0))))
   \<and> \<not> on_ground (new_position 2000 ''14f001''
        (state_at ''14F001'' (Some 1) (Some 2) (Some (Num 10000))))"
proof -
  let ?E = "fetchAndStoreRussianAircraft (\<lambda>n. False) (\<lambda>n. 1000 * int n) example_feed [] empty_db"
  let ?g = "state_at ''14F001'' (Some 1) (Some 2) (Some Ground)"
  let ?z = "state_at ''14F001'' (Some 1) (Some 2) (Some (Num 0))"
  let ?h = "state_at ''14F001'' (Some 1) (Some 2) (Some (Num 10000))"
  have a: "?E = (fst ?E, \<lparr>tracked = 2, stored = 1\<rparr>)"
    using example_cycle_summary by (metis prod.collapse)
  have b: "positions_table (fst ?E) = [new_position 2000 ''14f001'' ?g]"
    by (simp add: cycle_eval)
  have c: "positions_table (fst (cleanupOldData (\<lambda>n. False) (\<lambda>n. 1000 * int n) (empty_db, 0))) = []"
    by (simp add: cleanupOldData_def query_def delete_old_def empty_db_def)
  have t: "timestamp (new_position 2000 ''14f001'' ?g) = 2000"
    by (simp add: new_position_def)
  from stored_position_fields [of 2000 "''14f001''" ?g "\<lambda>n. False" "\<lambda>n. 1000 * int n"
      example_feed "[]" empty_db "fst ?E" "\<lparr>tracked = 2, stored = 1\<rparr>"] a
  have "\<forall>row \<in> set (drop (length (positions_table (fst (cleanupOldData (\<lambda>n. False)
            (\<lambda>n. 1000 * int n) (empty_db, 0))))) (positions_table (fst ?E))).
          \<exists>a \<in> set (mergeAircraft (fetchFromADSBone example_feed) (fetchFromOpenSky [])).
             row = new_position (timestamp row) (toLowerCase (the (hex a))) a"
    by blast
  then have e: "\<exists>a \<in> set (mergeAircraft (fetchFromADSBone example_feed) (fetchFromOpenSky [])).
        new_position 2000 ''14f001'' ?g = new_position 2000 (toLowerCase (the (hex a))) a"
    unfolding b c using t by simp
  have g: "alt_baro ?g = Some Ground" "alt_baro ?z = Some (Num 0)" "alt_baro ?h = Some (Num 10000)"
    by (simp_all add: state_at_def)
  have "resolved_altitude ?z = Some (Num 0)" "resolved_altitude ?h = Some (Num 10000)"
    by (simp_all add: resolved_altitude_def coalesce_def state_at_def)
  with g stored_position_fields [of 2000 "''14f001''" ?g]
    stored_position_fields [of 2000 "''14f001''" ?z]
    stored_position_fields [of 2000 "''14f001''" ?h]
  have "altitude (new_position 2000 ''14f001'' ?g) = None"
    "on_ground (new_position 2000 ''14f001'' ?g)"
    "altitude (new_position 2000 ''14f001'' ?z) = Some 0"
    "on_ground (new_position 2000 ''14f001'' ?z)"
    "\<not> on_ground (new_position 2000 ''14f001'' ?h)"
    by simp_all
  with a b e show ?thesis by blast
qed

end
